theory Spec2Isabelle
  imports Main "HOL-Library.Word" "HOL-Library.Signed_Division"
begin

unbundle bit_operations_syntax

section \<open>G.711 \<mu>-law encoding (\<open>linear_to_ulaw\<close>, mod_audio_stream.c lines 37-75)\<close>

text \<open>
  The C function takes an \<open>int16_t\<close> and computes in \<open>int\<close>: every read of
  \<open>pcm_val\<close> is promoted (\<open>sint\<close>), every store back into \<open>pcm_val\<close> narrows
  to 16 bits (\<open>word_of_int\<close>, which wraps). \<open>>>\<close> on a negative \<open>int\<close> is the
  arithmetic shift, which is \<open>drop_bit\<close> on \<open>int\<close>; \<open>&\<close>, \<open>|\<close> and \<open>~\<close> are the
  two's-complement operations of \<open>int\<close>. The final store into \<open>uint8_t\<close> keeps
  the low 8 bits.
\<close>

definition BIAS :: int where
  "BIAS = 0x84"

definition CLIP :: int where
  "CLIP = 32635"

definition exp_lut :: "int list" where
  "exp_lut =
    [0,0,1,1,2,2,2,2,3,3,3,3,3,3,3,3,
     4,4,4,4,4,4,4,4,4,4,4,4,4,4,4,4,
     5,5,5,5,5,5,5,5,5,5,5,5,5,5,5,5,
     5,5,5,5,5,5,5,5,5,5,5,5,5,5,5,5,
     6,6,6,6,6,6,6,6,6,6,6,6,6,6,6,6,
     6,6,6,6,6,6,6,6,6,6,6,6,6,6,6,6,
     6,6,6,6,6,6,6,6,6,6,6,6,6,6,6,6,
     6,6,6,6,6,6,6,6,6,6,6,6,6,6,6,6,
     7,7,7,7,7,7,7,7,7,7,7,7,7,7,7,7,
     7,7,7,7,7,7,7,7,7,7,7,7,7,7,7,7,
     7,7,7,7,7,7,7,7,7,7,7,7,7,7,7,7,
     7,7,7,7,7,7,7,7,7,7,7,7,7,7,7,7,
     7,7,7,7,7,7,7,7,7,7,7,7,7,7,7,7,
     7,7,7,7,7,7,7,7,7,7,7,7,7,7,7,7,
     7,7,7,7,7,7,7,7,7,7,7,7,7,7,7,7,
     7,7,7,7,7,7,7,7,7,7,7,7,7,7,7,7]"

definition linear_to_ulaw :: "16 word \<Rightarrow> 8 word" where
  "linear_to_ulaw pcm_val =
    (let sign = drop_bit 8 (sint pcm_val) AND 0x80;
         pcm_val1 = (if sign \<noteq> 0 then word_of_int (- sint pcm_val) else pcm_val) :: 16 word;
         pcm_val2 = (if sint pcm_val1 > CLIP then word_of_int CLIP else pcm_val1) :: 16 word;
         pcm_val3 = word_of_int (sint pcm_val2 + BIAS) :: 16 word;
         exponent = exp_lut ! nat (drop_bit 7 (sint pcm_val3) AND 0xFF);
         mantissa = drop_bit (nat (exponent + 3)) (sint pcm_val3) AND 0x0F
     in word_of_int (NOT (sign OR push_bit 4 exponent OR mantissa)))"

text \<open>
  The reference the specification describes, written from its words on unbounded
  integers: extract the sign, negate a negative input, clip the magnitude to 32635, add
  the bias 0x84, look the exponent up in the 8-bit segment table, take the 4-bit
  mantissa, combine and complement. It differs from \<open>linear_to_ulaw\<close> only in that
  the magnitude is an integer and not a 16-bit variable.
\<close>

definition g711_ulaw_reference :: "int \<Rightarrow> 8 word" where
  "g711_ulaw_reference sample =
    (let sign = (if sample < 0 then 0x80 else 0) :: int;
         magnitude = (if sample < 0 then - sample else sample);
         clipped = (if magnitude > 32635 then 32635 else magnitude);
         biased = clipped + 0x84;
         exponent = exp_lut ! nat (drop_bit 7 biased AND 0xFF);
         mantissa = drop_bit (nat (exponent + 3)) biased AND 0x0F
     in word_of_int (NOT (sign OR push_bit 4 exponent OR mantissa)))"

section \<open>Session state (\<open>struct private_data\<close>, mod_audio_stream.h lines 25-61)\<close>

text \<open>
  The fields the playback section of \<open>capture_callback\<close> reads or writes. The flags
  are one-bit bit-fields, tested for being non-zero. \<open>switch_size_t\<close> values are only
  compared and multiplied by 20 or 40, so they are natural numbers; the 32-bit counters
  wrap. The playback buffer is a FreeSWITCH \<open>switch_buffer_t\<close>: a FIFO of bytes, \<open>None\<close>
  for a NULL pointer.
\<close>

type_synonym switch_size_t = nat

record private_t =
  close_requested :: "1 word"
  playback_active :: "1 word"
  playback_is_pcmu :: "1 word"
  playback_buffer :: "8 word list option"
  playback_mutex :: bool
  warmup_threshold :: switch_size_t
  low_water_mark :: switch_size_t
  first_audio_ts :: "64 word"
  playback_start_ts :: "64 word"
  buffer_overruns :: "32 word"
  buffer_underruns :: "32 word"
  buffer_max_used :: switch_size_t
  underrun_streak :: "32 word"
  underrun_grace_frames :: "32 word"

text \<open>What a tick reads from the host: the clock and whether the session has a write codec.\<close>

record tick_env =
  switch_micro_time_now :: "64 word"
  write_codec :: bool

text \<open>The frame handed to \<open>switch_core_session_write_frame\<close>.\<close>

record switch_frame_t =
  data :: "8 word list"
  datalen :: nat
  samples :: nat
  rate :: nat

text \<open>
  The two call sites of \<open>switch_core_session_write_frame\<close>: line 185 writes the frame
  read from the playback buffer, line 205 writes the silence frame.
\<close>

datatype emission = Real_audio switch_frame_t | Silence_fill switch_frame_t

text \<open>
  The two log lines of the section: \<open>[PLAYBACK] started\<close> with the buffered bytes, the
  latency in ms when \<open>first_audio_ts > 0\<close> and the mode; \<open>[BUFFER] low\<close> with the
  buffered bytes.
\<close>

datatype log_msg =
    Playback_started switch_size_t "64 word option" bool
  | Buffer_low_pausing switch_size_t

section \<open>The playback section of \<open>capture_callback\<close> (READ case, lines 112-221)\<close>

definition pcmu_frame_size :: switch_size_t where
  "pcmu_frame_size = 160"

definition l16_frame_size :: switch_size_t where
  "l16_frame_size = 320"

definition frame_size :: "private_t \<Rightarrow> switch_size_t" where
  "frame_size s = (if playback_is_pcmu s \<noteq> 0 then pcmu_frame_size else l16_frame_size)"

text \<open>Lines 136-137: the thresholds a tick uses (the locals \<open>warmup_threshold\<close> and \<open>low_water_mark\<close>).\<close>

definition eff_warmup_threshold :: "private_t \<Rightarrow> switch_size_t" where
  "eff_warmup_threshold s =
    (if warmup_threshold s \<noteq> 0 then warmup_threshold s else frame_size s * 40)"

definition eff_low_water_mark :: "private_t \<Rightarrow> switch_size_t" where
  "eff_low_water_mark s =
    (if low_water_mark s \<noteq> 0 then low_water_mark s else frame_size s * 20)"

text \<open>FreeSWITCH's byte FIFO: the bytes in use, and a read that removes what it returns.\<close>

definition switch_buffer_inuse :: "8 word list \<Rightarrow> switch_size_t" where
  "switch_buffer_inuse b = length b"

definition switch_buffer_read :: "8 word list \<Rightarrow> switch_size_t \<Rightarrow> 8 word list \<times> 8 word list" where
  "switch_buffer_read b n = (take n b, drop n b)"

text \<open>
  \<open>switch_buffer_read\<close> into \<open>int16_t l16_data[160]\<close>: two bytes per sample in the
  host's byte order (little-endian on the supported hosts).
\<close>

fun l16_samples :: "8 word list \<Rightarrow> 16 word list" where
  "l16_samples (lo # hi # rest) = word_cat hi lo # l16_samples rest"
| "l16_samples _ = []"

definition mk_frame :: "8 word list \<Rightarrow> switch_frame_t" where
  "mk_frame d = \<lparr>data = d, datalen = 160, samples = 160, rate = 8000\<rparr>"

definition silence_pcmu :: "8 word list" where
  "silence_pcmu = replicate 160 0xFF"

text \<open>Lines 140-154: warmup.\<close>

definition warmup_step :: "tick_env \<Rightarrow> switch_size_t \<Rightarrow> private_t \<Rightarrow> private_t \<times> log_msg list" where
  "warmup_step env available s =
    (if playback_active s = 0 \<and> available \<ge> eff_warmup_threshold s then
       let s1 = s\<lparr>playback_active := 1, underrun_streak := 0,
                  playback_start_ts := switch_micro_time_now env\<rparr>
       in if first_audio_ts s1 > 0 then
            (s1, [Playback_started available
                    (Some ((playback_start_ts s1 - first_audio_ts s1) div 1000))
                    (playback_is_pcmu s1 \<noteq> 0)])
          else (s1, [Playback_started available None (playback_is_pcmu s1 \<noteq> 0)])
     else (s, []))"

text \<open>Lines 156-214: one frame of audio, or the underrun handling.\<close>

definition frame_step ::
  "tick_env \<Rightarrow> switch_size_t \<Rightarrow> 8 word list \<Rightarrow> private_t
     \<Rightarrow> 8 word list \<times> private_t \<times> emission option \<times> log_msg list" where
  "frame_step env available buf s =
    (if playback_active s \<noteq> 0 \<and> available \<ge> frame_size s then
       let (pcmu_data, buf') =
             (if playback_is_pcmu s \<noteq> 0 then switch_buffer_read buf pcmu_frame_size
              else let (raw, rest) = switch_buffer_read buf l16_frame_size
                   in (map linear_to_ulaw (take 160 (l16_samples raw)), rest))
       in (buf', s\<lparr>underrun_streak := 0\<rparr>,
           (if write_codec env then Some (Real_audio (mk_frame pcmu_data)) else None), [])
     else if playback_active s \<noteq> 0 \<and> available < frame_size s then
       let s1 = s\<lparr>buffer_underruns := buffer_underruns s + 1,
                  underrun_streak := underrun_streak s + 1\<rparr>
       in if underrun_streak s1 \<le> underrun_grace_frames s1 then
            (buf, s1,
             (if write_codec env then Some (Silence_fill (mk_frame silence_pcmu)) else None), [])
          else if available < eff_low_water_mark s1 then
            (buf, s1\<lparr>playback_active := 0, underrun_streak := 0\<rparr>, None,
             [Buffer_low_pausing available])
          else (buf, s1, None, [])
     else (buf, s, None, []))"

text \<open>Lines 216-218: the high-water statistic.\<close>

definition max_used_step :: "switch_size_t \<Rightarrow> private_t \<Rightarrow> private_t" where
  "max_used_step available s =
    (if available > buffer_max_used s then s\<lparr>buffer_max_used := available\<rparr> else s)"

record tick_out =
  written :: "emission option"
  logged :: "log_msg list"

text \<open>
  One tick of the engine on a buffer holding \<open>buf\<close>: the section run under the playback
  mutex. \<open>available\<close> is read once, before anything is consumed.
\<close>

definition playback_tick ::
  "tick_env \<Rightarrow> 8 word list \<Rightarrow> private_t \<Rightarrow> 8 word list \<times> private_t \<times> tick_out" where
  "playback_tick env buf s =
    (let available = switch_buffer_inuse buf;
         (s1, log1) = warmup_step env available s;
         (buf', s2, w, log2) = frame_step env available buf s1;
         s3 = max_used_step available s2
     in (buf', s3, \<lparr>written = w, logged = log1 @ log2\<rparr>))"

text \<open>
  The READ case up to the call of \<open>stream_frame\<close>: a session that is closing returns at
  once, a session without a playback buffer or mutex skips the section.
\<close>

datatype read_outcome = Return_false | Call_stream_frame

definition capture_callback_read ::
  "tick_env \<Rightarrow> private_t \<Rightarrow> private_t \<times> tick_out \<times> read_outcome" where
  "capture_callback_read env s =
    (if close_requested s \<noteq> 0 then (s, \<lparr>written = None, logged = []\<rparr>, Return_false)
     else case playback_buffer s of
       Some buf \<Rightarrow>
         if playback_mutex s then
           let (buf', s', out) = playback_tick env buf s
           in (s'\<lparr>playback_buffer := Some buf'\<rparr>, out, Call_stream_frame)
         else (s, \<lparr>written = None, logged = []\<rparr>, Call_stream_frame)
     | None \<Rightarrow> (s, \<lparr>written = None, logged = []\<rparr>, Call_stream_frame))"

section \<open>The API command (\<open>stream_function\<close>, lines 330-466) and \<open>start_capture\<close> (lines 236-287)\<close>

definition AUDIO_FORMAT_L16 :: int where
  "AUDIO_FORMAT_L16 = 0"

definition AUDIO_FORMAT_PCMU :: int where
  "AUDIO_FORMAT_PCMU = 1"

definition AUDIO_FORMAT_PCMA :: int where
  "AUDIO_FORMAT_PCMA = 2"

datatype switch_status_t = SWITCH_STATUS_SUCCESS | SWITCH_STATUS_FALSE | SWITCH_STATUS_OTHER nat

datatype switch_media_bug_flag = SMBF_READ_STREAM | SMBF_WRITE_STREAM | SMBF_WRITE_REPLACE | SMBF_STEREO

text \<open>
  What the command reads from the host, from libc and from the streaming glue (whose
  source is not part of these files): each is a parameter. \<open>validate_ws_uri\<close> returns
  the normalised URI, or \<open>None\<close> for 0.
\<close>

record api_env =
  switch_core_session_locate :: "string \<Rightarrow> bool"
  is_valid_utf8 :: "string \<Rightarrow> bool"
  validate_ws_uri :: "string \<Rightarrow> string option"
  atoi :: "string \<Rightarrow> int"
  bug_attached :: bool
  switch_channel_pre_answer :: switch_status_t
  stream_session_init :: switch_status_t
  switch_core_media_bug_add :: switch_status_t
  stream_session_cleanup :: switch_status_t
  stream_session_pauseresume :: switch_status_t
  stream_session_send_text :: switch_status_t

text \<open>The error lines the command logs, and the calls it makes into the host and the glue.\<close>

datatype api_log =
    Log_command_error
  | Log_error_locating_session string
  | Log_invalid_utf8 string
  | Log_send_text_needs_argument
  | Log_invalid_mix_type string
  | Log_invalid_websocket_uri string
  | Log_invalid_sample_rate
  | Log_g711_needs_8000
  | Log_unsupported_cmd string
  | Log_bug_already_attached
  | Log_not_pre_answered
  | Log_error_initializing
  | Log_no_bug

datatype api_call =
    Start_capture "switch_media_bug_flag set" string int int "string option"
  | Stream_session_init string int int int "string option"
  | Media_bug_add "switch_media_bug_flag set"
  | Channel_set_private
  | Do_stop "string option"
  | Do_pauseresume bool
  | Send_text string

datatype api_event = Error_log api_log | Call api_call

datatype api_reply = Reply_usage | Reply_ok | Reply_err

datatype api_fault = Null_argument

record api_result =
  reply :: "api_reply option"
  events :: "api_event list"

text \<open>\<open>0 == strcasecmp(a, b)\<close>: equality up to ASCII case.\<close>

definition tolower_c :: "char \<Rightarrow> char" where
  "tolower_c c =
    (if (65::nat) \<le> of_char c \<and> of_char c \<le> (90::nat) then char_of (of_char c + (32::nat)) else c)"

definition strcasecmp_eq :: "string \<Rightarrow> string \<Rightarrow> bool" where
  "strcasecmp_eq a b = (map tolower_c a = map tolower_c b)"

text \<open>
  The tail of the command: the reply follows the status, and \<open>goto done\<close> skips the
  reply.
\<close>

definition finish :: "switch_status_t \<Rightarrow> api_event list \<Rightarrow> api_fault + api_result" where
  "finish status evs =
    Inr \<lparr>reply = Some (if status = SWITCH_STATUS_SUCCESS then Reply_ok else Reply_err), events = evs\<rparr>"

definition goto_done :: "api_event list \<Rightarrow> api_fault + api_result" where
  "goto_done evs = Inr \<lparr>reply = None, events = evs\<rparr>"

text \<open>Lines 392-406: the format and the metadata.\<close>

definition parse_format_metadata :: "string list \<Rightarrow> int \<times> string option" where
  "parse_format_metadata argv =
    (let argc = length argv in
     if argc > 5 then
       (if strcasecmp_eq (argv ! 5) ''pcmu'' \<or> strcasecmp_eq (argv ! 5) ''ulaw''
           \<or> strcasecmp_eq (argv ! 5) ''mulaw'' then
          (AUDIO_FORMAT_PCMU, if argc > 6 then Some (argv ! 6) else None)
        else if strcasecmp_eq (argv ! 5) ''pcma'' \<or> strcasecmp_eq (argv ! 5) ''alaw'' then
          (AUDIO_FORMAT_PCMA, if argc > 6 then Some (argv ! 6) else None)
        else if strcasecmp_eq (argv ! 5) ''l16'' \<or> strcasecmp_eq (argv ! 5) ''linear''
           \<or> strcasecmp_eq (argv ! 5) ''pcm'' then
          (AUDIO_FORMAT_L16, if argc > 6 then Some (argv ! 6) else None)
        else (AUDIO_FORMAT_L16, Some (argv ! 5)))
     else (AUDIO_FORMAT_L16, None))"

text \<open>Lines 414-424: the mix type; \<open>None\<close> is the invalid one.\<close>

definition parse_mix :: "string \<Rightarrow> switch_media_bug_flag set option" where
  "parse_mix m =
    (let flags = {SMBF_READ_STREAM, SMBF_WRITE_REPLACE} in
     if m = ''mixed'' then Some (insert SMBF_WRITE_STREAM flags)
     else if m = ''stereo'' then Some (insert SMBF_STEREO (insert SMBF_WRITE_STREAM flags))
     else if m \<noteq> ''mono'' then None
     else Some flags)"

text \<open>Lines 379 and 425-433: the sample rate.\<close>

definition parse_sampling :: "api_env \<Rightarrow> string list \<Rightarrow> int" where
  "parse_sampling env argv =
    (if length argv > 4 then
       (if argv ! 4 = ''16k'' then 16000
        else if argv ! 4 = ''8k'' then 8000
        else atoi env (argv ! 4))
     else 8000)"

definition start_capture ::
  "api_env \<Rightarrow> switch_media_bug_flag set \<Rightarrow> string \<Rightarrow> int \<Rightarrow> int \<Rightarrow> string option
     \<Rightarrow> switch_status_t \<times> api_event list" where
  "start_capture env flags wsUri sampling audio_format metadata =
    (let channels = (if SMBF_STEREO \<in> flags then 2 else 1);
         init = Call (Stream_session_init wsUri sampling channels audio_format metadata)
     in if bug_attached env then (SWITCH_STATUS_FALSE, [Error_log Log_bug_already_attached])
        else if switch_channel_pre_answer env \<noteq> SWITCH_STATUS_SUCCESS then
          (SWITCH_STATUS_FALSE, [Error_log Log_not_pre_answered])
        else if stream_session_init env = SWITCH_STATUS_FALSE then
          (SWITCH_STATUS_FALSE, [init, Error_log Log_error_initializing])
        else if switch_core_media_bug_add env \<noteq> SWITCH_STATUS_SUCCESS then
          (switch_core_media_bug_add env, [init, Call (Media_bug_add flags)])
        else (SWITCH_STATUS_SUCCESS, [init, Call (Media_bug_add flags), Call Channel_set_private]))"

text \<open>
  Lines 376-445, the \<open>start\<close> branch. With fewer than four arguments \<open>argv[3]\<close> is NULL
  and \<open>strcmp\<close> reads through it: that is the fault.
\<close>

definition start_command :: "api_env \<Rightarrow> string list \<Rightarrow> api_fault + api_result" where
  "start_command env argv =
    (let argc = length argv;
         (audio_format, metadata) = parse_format_metadata argv;
         invalid = (case metadata of None \<Rightarrow> None
                    | Some m \<Rightarrow> if is_valid_utf8 env m then None else Some m)
     in case invalid of
          Some bad \<Rightarrow> goto_done [Error_log (Log_invalid_utf8 bad)]
        | None \<Rightarrow>
            (if argc < 4 then Inl Null_argument
             else (case parse_mix (argv ! 3) of
               None \<Rightarrow> goto_done [Error_log (Log_invalid_mix_type (argv ! 3))]
             | Some flags \<Rightarrow>
                 (let sampling = parse_sampling env argv in
                  (case validate_ws_uri env (argv ! 2) of
                    None \<Rightarrow>
                      finish SWITCH_STATUS_FALSE
                        [Error_log (Log_invalid_websocket_uri (argv ! 2))]
                  | Some wsUri \<Rightarrow>
                      (if sampling smod 8000 \<noteq> 0 then
                         finish SWITCH_STATUS_FALSE [Error_log Log_invalid_sample_rate]
                       else if audio_format \<noteq> AUDIO_FORMAT_L16 \<and> sampling \<noteq> 8000 then
                         finish SWITCH_STATUS_FALSE [Error_log Log_g711_needs_8000]
                       else
                         (let (status, evs) =
                                start_capture env flags wsUri sampling audio_format metadata
                          in finish status
                               (Call (Start_capture flags wsUri sampling audio_format metadata)
                                  # evs))))))))"

text \<open>
  \<open>stream_function\<close> on the arguments \<open>switch_separate_string\<close> split the command into
  (\<open>argc = length argv\<close>, at most 7; an empty command has none).
\<close>

definition stream_function :: "api_env \<Rightarrow> string list \<Rightarrow> api_fault + api_result" where
  "stream_function env argv =
    (let argc = length argv in
     if argc < 2 \<or> (argv ! 1 = ''start'' \<and> argc < 4) then
       Inr \<lparr>reply = Some Reply_usage, events = [Error_log Log_command_error]\<rparr>
     else if \<not> switch_core_session_locate env (argv ! 0) then
       finish SWITCH_STATUS_FALSE [Error_log (Log_error_locating_session (argv ! 0))]
     else if strcasecmp_eq (argv ! 1) ''stop'' then
       (if argc > 2 \<and> \<not> is_valid_utf8 env (argv ! 2) then
          goto_done [Error_log (Log_invalid_utf8 (argv ! 2))]
        else finish (stream_session_cleanup env)
               [Call (Do_stop (if argc > 2 then Some (argv ! 2) else None))])
     else if strcasecmp_eq (argv ! 1) ''pause'' then
       finish (stream_session_pauseresume env) [Call (Do_pauseresume True)]
     else if strcasecmp_eq (argv ! 1) ''resume'' then
       finish (stream_session_pauseresume env) [Call (Do_pauseresume False)]
     else if strcasecmp_eq (argv ! 1) ''send_text'' then
       (if argc < 3 then goto_done [Error_log Log_send_text_needs_argument]
        else if \<not> is_valid_utf8 env (argv ! 2) then
          goto_done [Error_log (Log_invalid_utf8 (argv ! 2))]
        else if bug_attached env then
          finish (stream_session_send_text env) [Call (Send_text (argv ! 2))]
        else finish SWITCH_STATUS_FALSE [Error_log Log_no_bug])
     else if strcasecmp_eq (argv ! 1) ''start'' then start_command env argv
     else finish SWITCH_STATUS_FALSE [Error_log (Log_unsupported_cmd (argv ! 1))])"

section \<open>Projections of a tick, and the inputs the examples run on\<close>

definition tick_buffer :: "tick_env \<Rightarrow> 8 word list \<Rightarrow> private_t \<Rightarrow> 8 word list" where
  "tick_buffer env buf s = fst (playback_tick env buf s)"

definition tick_state :: "tick_env \<Rightarrow> 8 word list \<Rightarrow> private_t \<Rightarrow> private_t" where
  "tick_state env buf s = fst (snd (playback_tick env buf s))"

definition tick_written :: "tick_env \<Rightarrow> 8 word list \<Rightarrow> private_t \<Rightarrow> emission option" where
  "tick_written env buf s = written (snd (snd (playback_tick env buf s)))"

definition tick_logged :: "tick_env \<Rightarrow> 8 word list \<Rightarrow> private_t \<Rightarrow> log_msg list" where
  "tick_logged env buf s = logged (snd (snd (playback_tick env buf s)))"

text \<open>A host with a write codec, and one without.\<close>

definition host_with_codec :: tick_env where
  "host_with_codec = \<lparr>switch_micro_time_now = 5000000, write_codec = True\<rparr>"

definition host_without_codec :: tick_env where
  "host_without_codec = \<lparr>switch_micro_time_now = 5000000, write_codec = False\<rparr>"

text \<open>
  A linear-PCM session in warmup with no threshold configured and five grace frames, and
  the same session once playback is active.
\<close>

definition warming_session :: private_t where
  "warming_session =
    \<lparr>close_requested = 0, playback_active = 0, playback_is_pcmu = 0,
     playback_buffer = Some [], playback_mutex = True,
     warmup_threshold = 0, low_water_mark = 0,
     first_audio_ts = 1000000, playback_start_ts = 0,
     buffer_overruns = 0, buffer_underruns = 0, buffer_max_used = 0,
     underrun_streak = 0, underrun_grace_frames = 5\<rparr>"

definition active_session :: private_t where
  "active_session = warming_session\<lparr>playback_active := 1\<rparr>"

text \<open>A host on which every collaborator of the API command succeeds.\<close>

definition willing_host :: api_env where
  "willing_host =
    \<lparr>switch_core_session_locate = (\<lambda>uuid. True), is_valid_utf8 = (\<lambda>text. True),
     validate_ws_uri = (\<lambda>uri. Some uri),
     atoi = (\<lambda>a. if a = ''11025'' then 11025 else if a = ''16000'' then 16000 else 0),
     bug_attached = False, switch_channel_pre_answer = SWITCH_STATUS_SUCCESS,
     stream_session_init = SWITCH_STATUS_SUCCESS,
     switch_core_media_bug_add = SWITCH_STATUS_SUCCESS,
     stream_session_cleanup = SWITCH_STATUS_SUCCESS,
     stream_session_pauseresume = SWITCH_STATUS_SUCCESS,
     stream_session_send_text = SWITCH_STATUS_SUCCESS\<rparr>"

section \<open>Lemmas on the encoder\<close>

lemma linear_to_ulaw_zero: "linear_to_ulaw 0 = 0xFF"
  by (simp add: linear_to_ulaw_def exp_lut_def BIAS_def CLIP_def)

lemma and_exp_int: "(a::int) AND 2 ^ n = (if bit a n then 2 ^ n else 0)"
proof (rule bit_eqI)
  fix m
  show "bit (a AND 2 ^ n) m \<longleftrightarrow> bit (if bit a n then 2 ^ n else (0::int)) m"
    by (auto simp: bit_and_iff bit_exp_iff)
qed

text \<open>The sign test \<open>(pcm_val >> 8) & 0x80\<close> reads bit 15, the sign of a 16-bit value.\<close>

lemma sign_bit_of_sample:
  assumes "- 32768 \<le> v" and "v < 32768"
  shows "drop_bit 8 v AND 0x80 = (if v < 0 then 0x80 else (0::int))"
proof -
  have b: "bit (drop_bit 8 v) 7 \<longleftrightarrow> v < 0"
  proof -
    have "bit (drop_bit 8 v) 7 \<longleftrightarrow> odd (v div 2 ^ 15)"
      by (simp add: bit_drop_bit_eq bit_iff_odd)
    also have "\<dots> \<longleftrightarrow> v < 0"
    proof (cases "v < 0")
      case True
      with assms have "v div 2 ^ 15 = - 1" by simp
      with True show ?thesis by simp
    next
      case False
      with assms have "v div 2 ^ 15 = 0" by simp
      with False show ?thesis by simp
    qed
    finally show ?thesis .
  qed
  have "drop_bit 8 v AND 2 ^ 7 = (if bit (drop_bit 8 v) 7 then 2 ^ 7 else 0)"
    by (rule and_exp_int)
  with b show ?thesis by simp
qed

lemma sint_int16_in_range:
  "- 32768 \<le> k \<Longrightarrow> k < 32768 \<Longrightarrow> sint (word_of_int k :: 16 word) = k"
  by (simp add: sint_sbintrunc' signed_take_bit_int_eq_self)

text \<open>
  Away from the most negative sample no store into the 16-bit variable wraps, and the
  code computes what the reference computes.
\<close>

lemma linear_to_ulaw_is_reference_above_min:
  assumes "pcm_val \<noteq> - 32768"
  shows "linear_to_ulaw pcm_val = g711_ulaw_reference (sint pcm_val)"
proof -
  define v where "v = sint pcm_val"
  have lo: "- 32768 \<le> v" and hi: "v < 32768"
    using sint_ge [of pcm_val] sint_lt [of pcm_val] by (simp_all add: v_def)
  have "v \<noteq> - 32768"
  proof
    assume "v = - 32768"
    then have "sint pcm_val = sint (- 32768 :: 16 word)"
      by (simp add: v_def)
    then have "pcm_val = - 32768"
      by (rule signed_word_eqI)
    with assms show False by simp
  qed
  with lo have lo': "- 32767 \<le> v" by simp
  have sign: "drop_bit 8 v AND 0x80 = (if v < 0 then 0x80 else 0)"
    using lo hi by (rule sign_bit_of_sample)
  define m where "m = (if v < 0 then - v else v)"
  have m: "0 \<le> m" "m \<le> 32767"
    using lo' hi by (simp_all add: m_def)
  have neg: "sint (word_of_int (- v) :: 16 word) = - v"
    by (rule sint_int16_in_range) (use lo' hi in simp_all)
  have same: "sint pcm_val = v"
    by (simp add: v_def)
  have mag: "sint ((if v < 0 then word_of_int (- v) else pcm_val) :: 16 word) = m"
    using neg same by (simp add: m_def)
  define c where "c = (if m > 32635 then 32635 else m)"
  have c: "0 \<le> c" "c \<le> 32635"
    using m by (simp_all add: c_def)
  have top: "sint (word_of_int 32635 :: 16 word) = 32635"
    by (simp add: sint_int16_in_range)
  have clip: "sint ((if m > 32635 then word_of_int 32635
      else (if v < 0 then word_of_int (- v) else pcm_val)) :: 16 word) = c"
    using mag top by (simp add: c_def)
  have bias: "sint (word_of_int (c + 0x84) :: 16 word) = c + 0x84"
    by (rule sint_int16_in_range) (use c in simp_all)
  have code: "linear_to_ulaw pcm_val =
      word_of_int (NOT ((if v < 0 then 0x80 else 0) OR
        push_bit 4 (exp_lut ! nat (drop_bit 7 (c + 0x84) AND 0xFF)) OR
        (drop_bit (nat (exp_lut ! nat (drop_bit 7 (c + 0x84) AND 0xFF) + 3)) (c + 0x84)
          AND 0x0F)))"
  proof -
    have s: "drop_bit 8 (sint pcm_val) AND 0x80 = (if v < 0 then 0x80 else 0)"
      using sign by (simp add: v_def)
    have p1: "(if (if v < 0 then 0x80 else (0::int)) \<noteq> 0 then word_of_int (- sint pcm_val)
        else pcm_val) = ((if v < 0 then word_of_int (- v) else pcm_val) :: 16 word)"
      by (simp add: v_def)
    have p2: "(if sint ((if v < 0 then word_of_int (- v) else pcm_val) :: 16 word) > 32635
        then word_of_int 32635 else (if v < 0 then word_of_int (- v) else pcm_val)) =
        ((if m > 32635 then word_of_int 32635
          else (if v < 0 then word_of_int (- v) else pcm_val)) :: 16 word)"
      by (simp only: mag)
    show ?thesis
      unfolding linear_to_ulaw_def Let_def BIAS_def CLIP_def s p1 p2 clip bias ..
  qed
  have ref: "g711_ulaw_reference v =
      word_of_int (NOT ((if v < 0 then 0x80 else 0) OR
        push_bit 4 (exp_lut ! nat (drop_bit 7 (c + 0x84) AND 0xFF)) OR
        (drop_bit (nat (exp_lut ! nat (drop_bit 7 (c + 0x84) AND 0xFF) + 3)) (c + 0x84)
          AND 0x0F)))"
    unfolding g711_ulaw_reference_def Let_def m_def [symmetric] c_def [symmetric] ..
  from code ref show ?thesis
    by (simp add: v_def)
qed

section \<open>The branches of a tick\<close>

lemma bit1_cases: "(x::1 word) = 0 \<or> x = 1"
proof -
  have "unat x < 2" using unsigned_less[of x, where 'a=nat] by simp
  then have "unat x = 0 \<or> unat x = 1" by arith
  then show ?thesis by (auto simp: word_unat_eq_iff)
qed

lemma one_bit_nonzero: "(x::1 word) \<noteq> 0 \<longleftrightarrow> x = 1"
  using bit1_cases [of x] by auto

lemma frame_size_upd [simp]:
  "frame_size (s\<lparr>underrun_streak := a\<rparr>) = frame_size s"
  "frame_size (s\<lparr>buffer_underruns := b\<rparr>) = frame_size s"
  "frame_size (s\<lparr>playback_active := c\<rparr>) = frame_size s"
  "frame_size (s\<lparr>playback_start_ts := d\<rparr>) = frame_size s"
  "frame_size (s\<lparr>buffer_max_used := e\<rparr>) = frame_size s"
  "frame_size (s\<lparr>warmup_threshold := f\<rparr>) = frame_size s"
  "frame_size (s\<lparr>low_water_mark := g\<rparr>) = frame_size s"
  by (simp_all add: frame_size_def)

lemma eff_low_water_mark_upd [simp]:
  "eff_low_water_mark (s\<lparr>underrun_streak := a\<rparr>) = eff_low_water_mark s"
  "eff_low_water_mark (s\<lparr>buffer_underruns := b\<rparr>) = eff_low_water_mark s"
  "eff_low_water_mark (s\<lparr>playback_active := c\<rparr>) = eff_low_water_mark s"
  "eff_low_water_mark (s\<lparr>playback_start_ts := d\<rparr>) = eff_low_water_mark s"
  "eff_low_water_mark (s\<lparr>buffer_max_used := e\<rparr>) = eff_low_water_mark s"
  "eff_low_water_mark (s\<lparr>warmup_threshold := f\<rparr>) = eff_low_water_mark s"
  by (simp_all add: eff_low_water_mark_def)

lemma eff_warmup_threshold_upd [simp]:
  "eff_warmup_threshold (s\<lparr>underrun_streak := a\<rparr>) = eff_warmup_threshold s"
  "eff_warmup_threshold (s\<lparr>buffer_underruns := b\<rparr>) = eff_warmup_threshold s"
  "eff_warmup_threshold (s\<lparr>playback_active := c\<rparr>) = eff_warmup_threshold s"
  "eff_warmup_threshold (s\<lparr>playback_start_ts := d\<rparr>) = eff_warmup_threshold s"
  "eff_warmup_threshold (s\<lparr>buffer_max_used := e\<rparr>) = eff_warmup_threshold s"
  "eff_warmup_threshold (s\<lparr>low_water_mark := g\<rparr>) = eff_warmup_threshold s"
  by (simp_all add: eff_warmup_threshold_def)

lemma frame_size_warmup [simp]: "frame_size (fst (warmup_step env a s)) = frame_size s"
  by (simp add: warmup_step_def frame_size_def Let_def)

lemma pcmu_warmup [simp]: "playback_is_pcmu (fst (warmup_step env a s)) = playback_is_pcmu s"
  by (simp add: warmup_step_def Let_def)

lemma frame_size_pos: "frame_size s = 160 \<or> frame_size s = 320"
  by (simp add: frame_size_def pcmu_frame_size_def l16_frame_size_def)

lemma warmup_step_active: "playback_active s \<noteq> 0 \<Longrightarrow> warmup_step env a s = (s, [])"
  by (simp add: warmup_step_def)

lemma warmup_step_below: "a < eff_warmup_threshold s \<Longrightarrow> warmup_step env a s = (s, [])"
  by (simp add: warmup_step_def)

lemma warmup_step_fires:
  "playback_active s = 0 \<Longrightarrow> eff_warmup_threshold s \<le> a \<Longrightarrow>
   fst (warmup_step env a s) =
     s\<lparr>playback_active := 1, underrun_streak := 0, playback_start_ts := switch_micro_time_now env\<rparr>"
  by (simp add: warmup_step_def Let_def)

lemma frame_step_audio:
  "playback_active s \<noteq> 0 \<Longrightarrow> frame_size s \<le> a \<Longrightarrow>
   frame_step env a buf s =
     (drop (frame_size s) buf, s\<lparr>underrun_streak := 0\<rparr>,
      (if write_codec env then
         Some (Real_audio (mk_frame
           (if playback_is_pcmu s \<noteq> 0 then take 160 buf
            else map linear_to_ulaw (take 160 (l16_samples (take 320 buf))))))
       else None), [])"
  by (simp add: frame_step_def frame_size_def switch_buffer_read_def pcmu_frame_size_def
      l16_frame_size_def Let_def)

lemma frame_step_grace:
  "playback_active s \<noteq> 0 \<Longrightarrow> a < frame_size s \<Longrightarrow>
   underrun_streak s + 1 \<le> underrun_grace_frames s \<Longrightarrow>
   frame_step env a buf s =
     (buf, s\<lparr>buffer_underruns := buffer_underruns s + 1, underrun_streak := underrun_streak s + 1\<rparr>,
      (if write_codec env then Some (Silence_fill (mk_frame silence_pcmu)) else None), [])"
  by (simp add: frame_step_def Let_def)

lemma frame_step_pause:
  "playback_active s \<noteq> 0 \<Longrightarrow> a < frame_size s \<Longrightarrow>
   \<not> underrun_streak s + 1 \<le> underrun_grace_frames s \<Longrightarrow> a < eff_low_water_mark s \<Longrightarrow>
   frame_step env a buf s =
     (buf, s\<lparr>buffer_underruns := buffer_underruns s + 1, underrun_streak := 0, playback_active := 0\<rparr>,
      None, [Buffer_low_pausing a])"
  by (simp add: frame_step_def Let_def)

lemma frame_step_hold:
  "playback_active s \<noteq> 0 \<Longrightarrow> a < frame_size s \<Longrightarrow>
   \<not> underrun_streak s + 1 \<le> underrun_grace_frames s \<Longrightarrow> \<not> a < eff_low_water_mark s \<Longrightarrow>
   frame_step env a buf s =
     (buf, s\<lparr>buffer_underruns := buffer_underruns s + 1, underrun_streak := underrun_streak s + 1\<rparr>,
      None, [])"
  by (simp add: frame_step_def Let_def)

lemma frame_step_idle:
  "playback_active s = 0 \<Longrightarrow> frame_step env a buf s = (buf, s, None, [])"
  by (simp add: frame_step_def)

lemma max_used_step_active [simp]:
  "playback_active (max_used_step a s) = playback_active s"
  "underrun_streak (max_used_step a s) = underrun_streak s"
  "buffer_underruns (max_used_step a s) = buffer_underruns s"
  "playback_start_ts (max_used_step a s) = playback_start_ts s"
  "playback_is_pcmu (max_used_step a s) = playback_is_pcmu s"
  by (simp_all add: max_used_step_def)

lemma playback_tick_unfold:
  "playback_tick env buf s =
    (fst (frame_step env (length buf) buf (fst (warmup_step env (length buf) s))),
     max_used_step (length buf)
       (fst (snd (frame_step env (length buf) buf (fst (warmup_step env (length buf) s))))),
     \<lparr>written = fst (snd (snd (frame_step env (length buf) buf (fst (warmup_step env (length buf) s))))),
      logged = snd (warmup_step env (length buf) s) @
        snd (snd (snd (frame_step env (length buf) buf (fst (warmup_step env (length buf) s)))))\<rparr>)"
  by (simp add: playback_tick_def switch_buffer_inuse_def Let_def split: prod.splits)

lemma tick_projections:
  "tick_buffer env buf s = fst (frame_step env (length buf) buf (fst (warmup_step env (length buf) s)))"
  "tick_state env buf s =
     max_used_step (length buf)
       (fst (snd (frame_step env (length buf) buf (fst (warmup_step env (length buf) s)))))"
  "tick_written env buf s =
     fst (snd (snd (frame_step env (length buf) buf (fst (warmup_step env (length buf) s)))))"
  "tick_logged env buf s =
     snd (warmup_step env (length buf) s) @
     snd (snd (snd (frame_step env (length buf) buf (fst (warmup_step env (length buf) s)))))"
  by (simp_all add: tick_buffer_def tick_state_def tick_written_def tick_logged_def
      playback_tick_unfold)

text \<open>The READ case of a session that is not closing runs the tick on the session's buffer.\<close>

lemma capture_callback_read_tick:
  assumes "close_requested s = 0" and "playback_buffer s = Some buf" and "playback_mutex s"
  shows "capture_callback_read env s =
    ((tick_state env buf s)\<lparr>playback_buffer := Some (tick_buffer env buf s)\<rparr>,
     \<lparr>written = tick_written env buf s, logged = tick_logged env buf s\<rparr>,
     Call_stream_frame)"
  using assms
  by (simp add: capture_callback_read_def playback_tick_unfold tick_projections)

lemma capture_callback_read_closing:
  "close_requested s \<noteq> 0 \<Longrightarrow>
   capture_callback_read env s = (s, \<lparr>written = None, logged = []\<rparr>, Return_false)"
  by (simp add: capture_callback_read_def)

lemma length_l16_samples: "length (l16_samples xs) = length xs div 2"
  by (induction xs rule: l16_samples.induct) simp_all

text \<open>Sample \<open>i\<close> is made of bytes \<open>2i\<close> (low) and \<open>2i + 1\<close> (high) of what was read.\<close>

lemma l16_samples_nth:
  "i < length xs div 2 \<Longrightarrow>
   l16_samples xs ! i = word_cat (xs ! (2 * i + 1)) (xs ! (2 * i))"
proof (induction xs arbitrary: i rule: l16_samples.induct)
  case (1 lo hi rest)
  show ?case
  proof (cases i)
    case 0
    then show ?thesis by simp
  next
    case (Suc j)
    with 1 show ?thesis by simp
  qed
qed simp_all

text \<open>A frame of linear audio, byte by byte: output byte \<open>i\<close> encodes bytes \<open>2i\<close> and \<open>2i + 1\<close>.\<close>

lemma encoded_frame_nth:
  assumes "320 \<le> length buf" and "i < 160"
  shows "map linear_to_ulaw (l16_samples (take 320 buf)) ! i =
    linear_to_ulaw (word_cat (buf ! (2 * i + 1)) (buf ! (2 * i)))"
proof -
  have n: "length (take 320 buf) div 2 = 160"
    using assms(1) by simp
  have "map linear_to_ulaw (l16_samples (take 320 buf)) ! i =
      linear_to_ulaw (l16_samples (take 320 buf) ! i)"
    using assms(2) n by (simp add: length_l16_samples)
  also have "l16_samples (take 320 buf) ! i =
      word_cat (take 320 buf ! (2 * i + 1)) (take 320 buf ! (2 * i))"
    using assms(2) n by (intro l16_samples_nth) simp
  also have "take 320 buf ! (2 * i + 1) = buf ! (2 * i + 1)"
    using assms(2) by simp
  also have "take 320 buf ! (2 * i) = buf ! (2 * i)"
    using assms(2) by simp
  finally show ?thesis .
qed

lemma linear_to_ulaw_thousand:
  "linear_to_ulaw 1000 = 0xCE" "linear_to_ulaw (- 1000) = 0x4E"
  by (simp_all add: linear_to_ulaw_def exp_lut_def BIAS_def CLIP_def)

lemma l16_samples_replicate: "l16_samples (replicate (2 * n) b) = replicate n (word_cat b b)"
  by (induction n) simp_all

lemma active_after_warmup:
  "playback_active (fst (warmup_step env a s)) \<noteq> 0 \<longleftrightarrow>
     playback_active s \<noteq> 0 \<or> eff_warmup_threshold s \<le> a"
  by (simp add: warmup_step_def Let_def)

lemma frame_step_keeps_inactive:
  "playback_active s = 0 \<Longrightarrow> playback_active (fst (snd (frame_step env a buf s))) = 0"
  by (simp add: frame_step_idle)

text \<open>A tick that finds the engine active (after warmup) and a whole frame buffered.\<close>

lemma tick_audio:
  assumes "playback_active s \<noteq> 0 \<or> eff_warmup_threshold s \<le> length buf"
    and "frame_size s \<le> length buf"
  shows "tick_buffer env buf s = drop (frame_size s) buf"
    and "tick_written env buf s =
      (if write_codec env then
         Some (Real_audio (mk_frame
           (if playback_is_pcmu s \<noteq> 0 then take 160 buf
            else map linear_to_ulaw (take 160 (l16_samples (take 320 buf))))))
       else None)"
    and "playback_active (tick_state env buf s) \<noteq> 0"
    and "underrun_streak (tick_state env buf s) = 0"
proof -
  let ?s1 = "fst (warmup_step env (length buf) s)"
  have a: "playback_active ?s1 \<noteq> 0"
    using assms(1) by (simp add: active_after_warmup)
  have f: "frame_size ?s1 \<le> length buf"
    using assms(2) by simp
  note st = frame_step_audio [OF a f]
  show "tick_buffer env buf s = drop (frame_size s) buf"
    by (simp add: tick_projections st)
  show "tick_written env buf s =
      (if write_codec env then
         Some (Real_audio (mk_frame
           (if playback_is_pcmu s \<noteq> 0 then take 160 buf
            else map linear_to_ulaw (take 160 (l16_samples (take 320 buf))))))
       else None)"
    by (simp add: tick_projections st)
  show "playback_active (tick_state env buf s) \<noteq> 0"
    using a by (simp add: tick_projections st)
  show "underrun_streak (tick_state env buf s) = 0"
    by (simp add: tick_projections st)
qed

text \<open>A tick that finds less than a frame buffered reads nothing from the buffer.\<close>

lemma tick_below_frame:
  assumes "length buf < frame_size s"
  shows "tick_buffer env buf s = buf"
    and "tick_written env buf s = None \<or>
         tick_written env buf s = Some (Silence_fill (mk_frame silence_pcmu))"
proof -
  let ?s1 = "fst (warmup_step env (length buf) s)"
  have f: "length buf < frame_size ?s1"
    using assms by simp
  have "fst (frame_step env (length buf) buf ?s1) = buf \<and>
        (fst (snd (snd (frame_step env (length buf) buf ?s1))) = None \<or>
         fst (snd (snd (frame_step env (length buf) buf ?s1))) =
           Some (Silence_fill (mk_frame silence_pcmu)))"
    using f by (simp add: frame_step_def Let_def)
  then show "tick_buffer env buf s = buf"
    and "tick_written env buf s = None \<or>
         tick_written env buf s = Some (Silence_fill (mk_frame silence_pcmu))"
    by (simp_all add: tick_projections)
qed

text \<open>A tick that leaves the engine in warmup does nothing but the statistic.\<close>

lemma tick_still_warming:
  assumes "playback_active s = 0" and "length buf < eff_warmup_threshold s"
  shows "tick_buffer env buf s = buf"
    and "tick_written env buf s = None"
    and "tick_logged env buf s = []"
    and "playback_active (tick_state env buf s) = 0"
  using assms by (simp_all add: tick_projections warmup_step_below frame_step_idle)

text \<open>A real-audio frame comes out of the audio branch only.\<close>

lemma no_audio_below_frame_aux:
  assumes "tick_written env buf s = Some (Real_audio f)"
  shows "frame_size s \<le> length buf"
    and "playback_active (fst (warmup_step env (length buf) s)) \<noteq> 0"
proof -
  let ?s1 = "fst (warmup_step env (length buf) s)"
  show "frame_size s \<le> length buf"
  proof (rule ccontr)
    assume "\<not> frame_size s \<le> length buf"
    then have "length buf < frame_size s" by simp
    from tick_below_frame(2) [OF this, of env] assms show False by simp
  qed
  show "playback_active ?s1 \<noteq> 0"
  proof
    assume "playback_active ?s1 = 0"
    then have "tick_written env buf s = None"
      by (simp add: tick_projections frame_step_idle)
    with assms show False by simp
  qed
qed

text \<open>The five branches of the frame step.\<close>

lemma frame_step_branches:
  obtains (audio) "playback_active s \<noteq> 0" "frame_size s \<le> a"
    | (grace) "playback_active s \<noteq> 0" "a < frame_size s"
        "underrun_streak s + 1 \<le> underrun_grace_frames s"
    | (pause) "playback_active s \<noteq> 0" "a < frame_size s"
        "\<not> underrun_streak s + 1 \<le> underrun_grace_frames s" "a < eff_low_water_mark s"
    | (hold) "playback_active s \<noteq> 0" "a < frame_size s"
        "\<not> underrun_streak s + 1 \<le> underrun_grace_frames s" "\<not> a < eff_low_water_mark s"
    | (idle) "playback_active s = 0"
  by (cases "playback_active s = 0"; cases "frame_size s \<le> a";
      cases "underrun_streak s + 1 \<le> underrun_grace_frames s";
      cases "a < eff_low_water_mark s") auto

text \<open>
  Writing a value into a threshold field changes a step only through the threshold the
  step computes from it.
\<close>

lemma warmup_step_set_warmup_threshold:
  assumes "eff_warmup_threshold (s\<lparr>warmup_threshold := d\<rparr>) = eff_warmup_threshold s"
  shows "warmup_step env a (s\<lparr>warmup_threshold := d\<rparr>) =
    ((fst (warmup_step env a s))\<lparr>warmup_threshold := d\<rparr>, snd (warmup_step env a s))"
  using assms by (simp add: warmup_step_def Let_def)

lemma warmup_step_set_low_water_mark:
  "warmup_step env a (s\<lparr>low_water_mark := d\<rparr>) =
    ((fst (warmup_step env a s))\<lparr>low_water_mark := d\<rparr>, snd (warmup_step env a s))"
  by (simp add: warmup_step_def Let_def)

lemma frame_step_set_warmup_threshold:
  "frame_step env a buf (s\<lparr>warmup_threshold := d\<rparr>) =
    (fst (frame_step env a buf s),
     (fst (snd (frame_step env a buf s)))\<lparr>warmup_threshold := d\<rparr>,
     snd (snd (frame_step env a buf s)))"
proof (cases s a rule: frame_step_branches)
  case audio
  then show ?thesis by (simp add: frame_step_audio)
next
  case grace
  then show ?thesis by (simp add: frame_step_grace)
next
  case pause
  then show ?thesis by (simp add: frame_step_pause)
next
  case hold
  then show ?thesis by (simp add: frame_step_hold)
next
  case idle
  then show ?thesis by (simp add: frame_step_idle)
qed

lemma frame_step_set_low_water_mark:
  assumes e: "eff_low_water_mark (s\<lparr>low_water_mark := d\<rparr>) = eff_low_water_mark s"
  shows "frame_step env a buf (s\<lparr>low_water_mark := d\<rparr>) =
    (fst (frame_step env a buf s),
     (fst (snd (frame_step env a buf s)))\<lparr>low_water_mark := d\<rparr>,
     snd (snd (frame_step env a buf s)))"
proof (cases s a rule: frame_step_branches)
  case audio
  then show ?thesis by (simp add: frame_step_audio)
next
  case grace
  then show ?thesis by (simp add: frame_step_grace)
next
  case pause
  then show ?thesis using e by (simp add: frame_step_pause)
next
  case hold
  then show ?thesis using e by (simp add: frame_step_hold)
next
  case idle
  then show ?thesis by (simp add: frame_step_idle)
qed

lemma max_used_step_set_threshold:
  "max_used_step a (s\<lparr>warmup_threshold := d\<rparr>) = (max_used_step a s)\<lparr>warmup_threshold := d\<rparr>"
  "max_used_step a (s\<lparr>low_water_mark := d\<rparr>) = (max_used_step a s)\<lparr>low_water_mark := d\<rparr>"
  by (simp_all add: max_used_step_def)

lemma eff_low_water_mark_warmup:
  "eff_low_water_mark (fst (warmup_step env a s)) = eff_low_water_mark s"
  by (simp add: warmup_step_def Let_def)

lemma playback_tick_set_warmup_threshold:
  assumes "eff_warmup_threshold (s\<lparr>warmup_threshold := d\<rparr>) = eff_warmup_threshold s"
  shows "playback_tick env buf (s\<lparr>warmup_threshold := d\<rparr>) =
          (tick_buffer env buf s, (tick_state env buf s)\<lparr>warmup_threshold := d\<rparr>,
           \<lparr>written = tick_written env buf s, logged = tick_logged env buf s\<rparr>)"
  by (simp add: playback_tick_unfold tick_projections
      warmup_step_set_warmup_threshold [OF assms] frame_step_set_warmup_threshold
      max_used_step_set_threshold)

lemma playback_tick_set_low_water_mark:
  assumes "eff_low_water_mark (s\<lparr>low_water_mark := d\<rparr>) = eff_low_water_mark s"
  shows "playback_tick env buf (s\<lparr>low_water_mark := d\<rparr>) =
          (tick_buffer env buf s, (tick_state env buf s)\<lparr>low_water_mark := d\<rparr>,
           \<lparr>written = tick_written env buf s, logged = tick_logged env buf s\<rparr>)"
proof -
  let ?s1 = "fst (warmup_step env (length buf) s)"
  have "eff_low_water_mark (?s1\<lparr>low_water_mark := d\<rparr>) =
      (if d \<noteq> 0 then d else frame_size ?s1 * 20)"
    by (simp add: eff_low_water_mark_def)
  also have "\<dots> = eff_low_water_mark (s\<lparr>low_water_mark := d\<rparr>)"
    by (simp add: eff_low_water_mark_def)
  also have "\<dots> = eff_low_water_mark ?s1"
    using assms by (simp add: eff_low_water_mark_warmup)
  finally have "eff_low_water_mark (?s1\<lparr>low_water_mark := d\<rparr>) = eff_low_water_mark ?s1" .
  then show ?thesis
    by (simp add: playback_tick_unfold tick_projections warmup_step_set_low_water_mark
        frame_step_set_low_water_mark max_used_step_set_threshold)
qed

text \<open>No branch of a tick writes the format flag.\<close>

lemma tick_keeps_format:
  "playback_is_pcmu (tick_state env buf s) = playback_is_pcmu s"
proof -
  let ?s1 = "fst (warmup_step env (length buf) s)"
  have "playback_is_pcmu (fst (snd (frame_step env (length buf) buf ?s1))) = playback_is_pcmu ?s1"
  proof (cases ?s1 "length buf" rule: frame_step_branches)
    case audio
    then show ?thesis by (simp add: frame_step_audio)
  next
    case grace
    then show ?thesis by (simp add: frame_step_grace)
  next
    case pause
    then show ?thesis by (simp add: frame_step_pause)
  next
    case hold
    then show ?thesis by (simp add: frame_step_hold)
  next
    case idle
    then show ?thesis by (simp add: frame_step_idle)
  qed
  then show ?thesis
    by (simp add: tick_projections)
qed

section \<open>Lemmas on the start command\<close>

lemma smod_8000: "(x::int) smod 8000 \<noteq> 0 \<longleftrightarrow> \<not> 8000 dvd x"
  by (simp add: smod_int_alt_def sgn_if dvd_eq_mod_eq_0 abs_if) presburger

lemma start_is_no_other_command:
  assumes "strcasecmp_eq c ''start''"
  shows "\<not> strcasecmp_eq c ''stop''" and "\<not> strcasecmp_eq c ''pause''"
    and "\<not> strcasecmp_eq c ''resume''" and "\<not> strcasecmp_eq c ''send_text''"
  using assms by (simp_all add: strcasecmp_eq_def tolower_c_def)

text \<open>A rate other than 8000 was given as a fifth argument.\<close>

lemma parse_sampling_given:
  "parse_sampling env argv \<noteq> 8000 \<Longrightarrow> 4 < length argv"
  by (simp add: parse_sampling_def split: if_splits)

text \<open>What the start branch does with a rate it refuses, check by check.\<close>

lemma start_command_refused:
  assumes len: "4 < length argv"
    and bad: "parse_sampling env argv smod 8000 \<noteq> 0 \<or>
      (fst (parse_format_metadata argv) \<noteq> AUDIO_FORMAT_L16 \<and> parse_sampling env argv \<noteq> 8000)"
  shows "start_command env argv =
    (case snd (parse_format_metadata argv) of
       Some m \<Rightarrow> if is_valid_utf8 env m then
           (case parse_mix (argv ! 3) of
              None \<Rightarrow> goto_done [Error_log (Log_invalid_mix_type (argv ! 3))]
            | Some flags \<Rightarrow>
                (case validate_ws_uri env (argv ! 2) of
                   None \<Rightarrow> finish SWITCH_STATUS_FALSE
                             [Error_log (Log_invalid_websocket_uri (argv ! 2))]
                 | Some u \<Rightarrow> finish SWITCH_STATUS_FALSE
                     [Error_log (if parse_sampling env argv smod 8000 \<noteq> 0
                                 then Log_invalid_sample_rate else Log_g711_needs_8000)]))
         else goto_done [Error_log (Log_invalid_utf8 m)]
     | None \<Rightarrow>
         (case parse_mix (argv ! 3) of
            None \<Rightarrow> goto_done [Error_log (Log_invalid_mix_type (argv ! 3))]
          | Some flags \<Rightarrow>
              (case validate_ws_uri env (argv ! 2) of
                 None \<Rightarrow> finish SWITCH_STATUS_FALSE
                           [Error_log (Log_invalid_websocket_uri (argv ! 2))]
               | Some u \<Rightarrow> finish SWITCH_STATUS_FALSE
                   [Error_log (if parse_sampling env argv smod 8000 \<noteq> 0
                               then Log_invalid_sample_rate else Log_g711_needs_8000)])))"
proof -
  obtain fmt meta where pm: "parse_format_metadata argv = (fmt, meta)"
    by (cases "parse_format_metadata argv")
  from len have n4: "\<not> length argv < 4" by simp
  from bad pm have bad': "parse_sampling env argv smod 8000 \<noteq> 0 \<or>
      (fmt \<noteq> AUDIO_FORMAT_L16 \<and> parse_sampling env argv \<noteq> 8000)"
    by simp
  show ?thesis
    using bad' n4
    by (auto simp: start_command_def pm Let_def split: option.splits)
qed

section \<open>Properties of the encoder\<close>

text \<open>
  C1. The code agrees with the reference on every sample but the most negative one.
  There, negating \<open>-32768\<close> in the 16-bit variable gives \<open>-32768\<close> again, the clip does
  not apply, and the code returns 0x7F where the reference (magnitude 32768 clipped to
  32635) returns 0x00.
\<close>

theorem linear_to_ulaw_against_reference:
  "linear_to_ulaw (- 32768) = 0x7F
   \<and> g711_ulaw_reference (sint (- 32768 :: 16 word)) = 0x00
   \<and> (\<forall>pcm_val. pcm_val \<noteq> - 32768 \<longrightarrow>
         linear_to_ulaw pcm_val = g711_ulaw_reference (sint pcm_val))"
proof -
  have "linear_to_ulaw (- 32768) = 0x7F"
    by (simp add: linear_to_ulaw_def exp_lut_def BIAS_def CLIP_def)
  moreover have "g711_ulaw_reference (sint (- 32768 :: 16 word)) = 0x00"
    by (simp add: g711_ulaw_reference_def exp_lut_def)
  ultimately show ?thesis
    using linear_to_ulaw_is_reference_above_min by simp
qed

theorem linear_to_ulaw_against_reference_witness:
  "(- 32767 :: 16 word) \<noteq> - 32768
   \<and> linear_to_ulaw (- 32767) = g711_ulaw_reference (sint (- 32767 :: 16 word))
   \<and> linear_to_ulaw (- 32767) = 0x00
   \<and> linear_to_ulaw (- 32768) = 0x7F"
proof -
  have d: "(- 32767 :: 16 word) \<noteq> - 32768"
    by simp
  have v: "linear_to_ulaw (- 32767) = 0x00"
    by (simp add: linear_to_ulaw_def exp_lut_def BIAS_def CLIP_def)
  from linear_to_ulaw_against_reference d v show ?thesis
    by simp
qed

text \<open>
  C5. \<open>linear_to_ulaw\<close> is a function of its 16-bit argument alone (it reads and writes
  no state), the zero sample encodes to 0xFF, and the 160 bytes the engine fills a
  silence frame with (\<open>memset(silence_pcmu, 0xFF, 160)\<close>) are exactly 160 encodings of
  the zero sample.
\<close>

theorem linear_to_ulaw_zero_is_silence:
  "linear_to_ulaw 0 = 0xFF \<and> silence_pcmu = replicate 160 (linear_to_ulaw 0)"
  by (simp add: linear_to_ulaw_def exp_lut_def BIAS_def CLIP_def silence_pcmu_def)

section \<open>Properties of the engine\<close>

text \<open>
  C2, as amended. On a tick that finds the engine active and less than one frame
  buffered, the underrun counter and the streak go up by one (modulo \<open>2^32\<close>) and
  nothing is read from the buffer. The engine pauses exactly when the new streak exceeds
  \<open>underrun_grace_frames\<close> and the buffered bytes are below the low water mark; pausing
  resets the streak to 0 and writes nothing. While the new streak is within the grace
  count the engine stays active and, when the session has a write codec, writes one
  frame of 160 bytes 0xFF; without a write codec it writes nothing.
\<close>

theorem underrun_tick:
  assumes act: "playback_active s \<noteq> 0"
    and low: "length buf < frame_size s"
  shows "buffer_underruns (tick_state env buf s) = buffer_underruns s + 1
       \<and> tick_buffer env buf s = buf
       \<and> (playback_active (tick_state env buf s) = 0 \<longleftrightarrow>
            (underrun_grace_frames s < underrun_streak s + 1 \<and> length buf < eff_low_water_mark s))
       \<and> (playback_active (tick_state env buf s) = 0 \<longrightarrow>
            underrun_streak (tick_state env buf s) = 0 \<and> tick_written env buf s = None)
       \<and> (playback_active (tick_state env buf s) \<noteq> 0 \<longrightarrow>
            underrun_streak (tick_state env buf s) = underrun_streak s + 1)
       \<and> (underrun_streak s + 1 \<le> underrun_grace_frames s \<longrightarrow>
            playback_active (tick_state env buf s) \<noteq> 0 \<and>
            tick_written env buf s =
              (if write_codec env then Some (Silence_fill (mk_frame (replicate 160 0xFF)))
               else None))"
proof -
  have w: "warmup_step env (length buf) s = (s, [])"
    using act by (rule warmup_step_active)
  consider (grace) "underrun_streak s + 1 \<le> underrun_grace_frames s"
    | (pause) "\<not> underrun_streak s + 1 \<le> underrun_grace_frames s"
        "length buf < eff_low_water_mark s"
    | (hold) "\<not> underrun_streak s + 1 \<le> underrun_grace_frames s"
        "\<not> length buf < eff_low_water_mark s"
    by blast
  then show ?thesis
  proof cases
    case grace
    then have "\<not> underrun_grace_frames s < underrun_streak s + 1"
      by (simp add: not_less)
    with grace act low show ?thesis
      by (simp add: tick_projections w frame_step_grace silence_pcmu_def)
  next
    case pause
    then have "underrun_grace_frames s < underrun_streak s + 1"
      by (simp add: not_le)
    with pause act low show ?thesis
      by (simp add: tick_projections w frame_step_pause)
  next
    case hold
    then have "underrun_grace_frames s < underrun_streak s + 1"
      by (simp add: not_le)
    with hold act low show ?thesis
      by (simp add: tick_projections w frame_step_hold)
  qed
qed

theorem underrun_tick_witness:
  "playback_active active_session \<noteq> 0
   \<and> length ([] :: 8 word list) < frame_size active_session
   \<and> underrun_streak active_session + 1 \<le> underrun_grace_frames active_session
   \<and> buffer_underruns (tick_state host_with_codec [] active_session) = 1
   \<and> underrun_streak (tick_state host_with_codec [] active_session) = 1
   \<and> playback_active (tick_state host_with_codec [] active_session) = 1
   \<and> tick_written host_with_codec [] active_session =
        Some (Silence_fill (mk_frame (replicate 160 0xFF)))"
  using underrun_tick [of active_session "[]" host_with_codec]
  by (simp add: active_session_def warming_session_def host_with_codec_def frame_size_def
      l16_frame_size_def one_bit_nonzero)

text \<open>
  C2 as stated fails on a session without a write codec: the engine is active, the
  buffer is empty, the streak is within the grace count, and no frame is written.
\<close>

theorem underrun_grace_without_codec:
  "playback_active active_session \<noteq> 0
   \<and> length ([] :: 8 word list) < frame_size active_session
   \<and> underrun_streak active_session + 1 \<le> underrun_grace_frames active_session
   \<and> tick_written host_without_codec [] active_session = None"
  by (simp add: tick_projections warmup_step_def frame_step_def Let_def
      active_session_def warming_session_def host_without_codec_def frame_size_def
      l16_frame_size_def)

text \<open>
  C3. For an engine that is not active, the warmup step sets \<open>playback_active\<close> exactly
  when the buffered bytes are at least the warmup threshold, and then it resets
  \<open>underrun_streak\<close> to 0 and records the clock in \<open>playback_start_ts\<close>. Nothing else in
  a tick sets the flag: the frame step and the statistic leave an inactive engine
  inactive, and the warmup step leaves an active engine as it is. For the whole tick:
  the \<open>[PLAYBACK] started\<close> line is logged exactly when the threshold is reached, an
  engine found active at the end has reached it and carries the recorded clock, and
  when a whole frame is also buffered the tick ends active with the streak at 0.
\<close>

theorem warmup_activation:
  assumes idle: "playback_active s = 0"
  shows "((playback_active (fst (warmup_step env a s)) \<noteq> 0) = (eff_warmup_threshold s \<le> a))
       \<and> (eff_warmup_threshold s \<le> a \<longrightarrow>
            playback_active (fst (warmup_step env a s)) = 1 \<and>
            underrun_streak (fst (warmup_step env a s)) = 0 \<and>
            playback_start_ts (fst (warmup_step env a s)) = switch_micro_time_now env)
       \<and> playback_active (fst (snd (frame_step env a buf s))) = 0
       \<and> playback_active (max_used_step a s) = 0
       \<and> (\<forall>t. playback_active t \<noteq> 0 \<longrightarrow> warmup_step env a t = (t, []))
       \<and> ((\<exists>l p. Playback_started (length buf) l p \<in> set (tick_logged env buf s))
            = (eff_warmup_threshold s \<le> length buf))
       \<and> (playback_active (tick_state env buf s) \<noteq> 0 \<longrightarrow>
            eff_warmup_threshold s \<le> length buf \<and>
            playback_start_ts (tick_state env buf s) = switch_micro_time_now env)
       \<and> (eff_warmup_threshold s \<le> length buf \<and> frame_size s \<le> length buf \<longrightarrow>
            playback_active (tick_state env buf s) \<noteq> 0 \<and>
            underrun_streak (tick_state env buf s) = 0 \<and>
            playback_start_ts (tick_state env buf s) = switch_micro_time_now env)"
proof -
  have step: "(playback_active (fst (warmup_step env a s)) \<noteq> 0) = (eff_warmup_threshold s \<le> a)"
    using idle by (simp add: active_after_warmup)
  have fires: "eff_warmup_threshold s \<le> a \<longrightarrow>
            playback_active (fst (warmup_step env a s)) = 1 \<and>
            underrun_streak (fst (warmup_step env a s)) = 0 \<and>
            playback_start_ts (fst (warmup_step env a s)) = switch_micro_time_now env"
    using idle by (simp add: warmup_step_fires)
  have frame: "playback_active (fst (snd (frame_step env a buf s))) = 0"
    using idle by (rule frame_step_keeps_inactive)
  have stat: "playback_active (max_used_step a s) = 0"
    using idle by simp
  have kept: "\<forall>t. playback_active t \<noteq> 0 \<longrightarrow> warmup_step env a t = (t, [])"
    by (simp add: warmup_step_active)
  have logged: "(\<exists>l p. Playback_started (length buf) l p \<in> set (tick_logged env buf s))
            = (eff_warmup_threshold s \<le> length buf)"
  proof (cases "eff_warmup_threshold s \<le> length buf")
    case True
    then have "\<exists>l p. snd (warmup_step env (length buf) s) = [Playback_started (length buf) l p]"
      using idle by (simp add: warmup_step_def Let_def)
    then obtain l p where "snd (warmup_step env (length buf) s) = [Playback_started (length buf) l p]"
      by blast
    then have "Playback_started (length buf) l p \<in> set (tick_logged env buf s)"
      by (simp add: tick_projections)
    then show ?thesis
      using True by blast
  next
    case False
    then show ?thesis
      using idle by (simp add: tick_still_warming)
  qed
  have ts: "playback_start_ts (tick_state env buf s) =
      playback_start_ts (fst (warmup_step env (length buf) s))"
    by (simp add: tick_projections frame_step_def Let_def split: prod.splits)
  have only: "playback_active (tick_state env buf s) \<noteq> 0 \<longrightarrow>
            eff_warmup_threshold s \<le> length buf \<and>
            playback_start_ts (tick_state env buf s) = switch_micro_time_now env"
  proof (cases "eff_warmup_threshold s \<le> length buf")
    case True
    then show ?thesis
      using idle by (simp add: ts warmup_step_fires)
  next
    case False
    then show ?thesis
      using idle by (simp add: tick_still_warming)
  qed
  have whole: "eff_warmup_threshold s \<le> length buf \<and> frame_size s \<le> length buf \<longrightarrow>
            playback_active (tick_state env buf s) \<noteq> 0 \<and>
            underrun_streak (tick_state env buf s) = 0 \<and>
            playback_start_ts (tick_state env buf s) = switch_micro_time_now env"
    using idle by (simp add: tick_audio ts warmup_step_fires)
  from step fires frame stat kept logged only whole show ?thesis
    by blast
qed

theorem warmup_activation_witness:
  "playback_active warming_session = 0
   \<and> eff_warmup_threshold warming_session \<le> 12800
   \<and> playback_active (fst (warmup_step host_with_codec 12800 warming_session)) = 1
   \<and> underrun_streak (fst (warmup_step host_with_codec 12800 warming_session)) = 0
   \<and> playback_start_ts (fst (warmup_step host_with_codec 12800 warming_session)) = 5000000
   \<and> \<not> eff_warmup_threshold warming_session \<le> 12799
   \<and> playback_active (fst (warmup_step host_with_codec 12799 warming_session)) = 0"
  using warmup_activation [of warming_session host_with_codec 12800 "[]"]
    warmup_activation [of warming_session host_with_codec 12799 "[]"]
  by (simp add: warming_session_def host_with_codec_def eff_warmup_threshold_def
      frame_size_def l16_frame_size_def)

text \<open>
  C4. A tick that finds less than one frame buffered writes no real-audio frame and
  leaves the buffer as it was. A real-audio frame is written only when the engine is
  active once the warmup step has run and at least one frame is buffered, and that tick
  takes exactly one frame's worth of bytes off the front of the buffer; the buffer
  changes in no other tick.
\<close>

theorem no_audio_below_frame:
  "(length buf < frame_size s \<longrightarrow>
      (\<forall>f. tick_written env buf s \<noteq> Some (Real_audio f)) \<and> tick_buffer env buf s = buf)
   \<and> (\<forall>f. tick_written env buf s = Some (Real_audio f) \<longrightarrow>
         frame_size s \<le> length buf \<and>
         playback_active (fst (warmup_step env (length buf) s)) \<noteq> 0 \<and>
         tick_buffer env buf s = drop (frame_size s) buf \<and>
         length (tick_buffer env buf s) + frame_size s = length buf)
   \<and> (tick_buffer env buf s \<noteq> buf \<longrightarrow>
         frame_size s \<le> length buf \<and>
         playback_active (fst (warmup_step env (length buf) s)) \<noteq> 0 \<and>
         tick_buffer env buf s = drop (frame_size s) buf)"
proof -
  let ?s1 = "fst (warmup_step env (length buf) s)"
  have below: "length buf < frame_size s \<longrightarrow>
      (\<forall>f. tick_written env buf s \<noteq> Some (Real_audio f)) \<and> tick_buffer env buf s = buf"
    using tick_below_frame [of buf s env] by (auto simp: silence_pcmu_def)
  have idle: "playback_active ?s1 = 0 \<longrightarrow>
      tick_written env buf s = None \<and> tick_buffer env buf s = buf"
    by (simp add: tick_projections frame_step_idle)
  have audio: "playback_active ?s1 \<noteq> 0 \<and> frame_size s \<le> length buf \<longrightarrow>
      tick_buffer env buf s = drop (frame_size s) buf"
    by (simp add: tick_audio active_after_warmup)
  have len: "frame_size s \<le> length buf \<longrightarrow>
      length (drop (frame_size s) buf) + frame_size s = length buf"
    by simp
  have a: "\<forall>f. tick_written env buf s = Some (Real_audio f) \<longrightarrow>
         frame_size s \<le> length buf \<and> playback_active ?s1 \<noteq> 0"
    using below idle by (metis not_le option.distinct(1))
  have b: "tick_buffer env buf s \<noteq> buf \<longrightarrow>
         frame_size s \<le> length buf \<and> playback_active ?s1 \<noteq> 0"
    using below idle by (metis not_le)
  from below a b audio len show ?thesis
    by metis
qed

theorem no_audio_below_frame_witness:
  "length (replicate 319 0 :: 8 word list) < frame_size active_session
   \<and> tick_written host_with_codec (replicate 319 0) active_session \<noteq>
        Some (Real_audio (mk_frame (replicate 160 0xFF)))
   \<and> tick_buffer host_with_codec (replicate 319 0) active_session = replicate 319 0"
  using no_audio_below_frame [of "replicate 319 0" active_session host_with_codec]
  by (simp add: active_session_def warming_session_def frame_size_def l16_frame_size_def)

text \<open>
  C7. No tick changes the format flag, and with it the frame size. A real-audio frame
  written in a session whose buffer holds companded audio (\<open>playback_is_pcmu\<close> set)
  consumed the first 160 bytes of the buffer and carries them unchanged: output byte
  \<open>i\<close> is buffer byte \<open>i\<close>. In a linear session it consumed the first 320 bytes and
  carries the 160 \<mu>-law encodings of their 160 16-bit samples, in order: output byte
  \<open>i\<close> is \<open>linear_to_ulaw\<close> of the sample whose low byte is buffer byte \<open>2i\<close> and whose
  high byte is buffer byte \<open>2i + 1\<close>. Either way the frame has 160 bytes.
\<close>

theorem frame_consumption:
  "playback_is_pcmu (tick_state env buf s) = playback_is_pcmu s
   \<and> frame_size (tick_state env buf s) = frame_size s
   \<and> (\<forall>f. tick_written env buf s = Some (Real_audio f) \<longrightarrow>
        (playback_is_pcmu s \<noteq> 0 \<longrightarrow>
           frame_size s = 160 \<and> tick_buffer env buf s = drop 160 buf \<and>
           length (tick_buffer env buf s) + 160 = length buf \<and> data f = take 160 buf \<and>
           (\<forall>i<160. data f ! i = buf ! i))
      \<and> (playback_is_pcmu s = 0 \<longrightarrow>
           frame_size s = 320 \<and> tick_buffer env buf s = drop 320 buf \<and>
           length (tick_buffer env buf s) + 320 = length buf \<and>
           length (l16_samples (take 320 buf)) = 160 \<and>
           data f = map linear_to_ulaw (l16_samples (take 320 buf)) \<and>
           (\<forall>i<160. data f ! i =
              linear_to_ulaw (word_cat (buf ! (2 * i + 1)) (buf ! (2 * i)))))
      \<and> length (data f) = 160 \<and> datalen f = 160 \<and> samples f = 160 \<and> rate f = 8000)"
proof -
  have flag: "playback_is_pcmu (tick_state env buf s) = playback_is_pcmu s"
    by (rule tick_keeps_format)
  then have size: "frame_size (tick_state env buf s) = frame_size s"
    by (simp add: frame_size_def)
  have audio: "\<forall>f. tick_written env buf s = Some (Real_audio f) \<longrightarrow>
        (playback_is_pcmu s \<noteq> 0 \<longrightarrow>
           frame_size s = 160 \<and> tick_buffer env buf s = drop 160 buf \<and>
           length (tick_buffer env buf s) + 160 = length buf \<and> data f = take 160 buf \<and>
           (\<forall>i<160. data f ! i = buf ! i))
      \<and> (playback_is_pcmu s = 0 \<longrightarrow>
           frame_size s = 320 \<and> tick_buffer env buf s = drop 320 buf \<and>
           length (tick_buffer env buf s) + 320 = length buf \<and>
           length (l16_samples (take 320 buf)) = 160 \<and>
           data f = map linear_to_ulaw (l16_samples (take 320 buf)) \<and>
           (\<forall>i<160. data f ! i =
              linear_to_ulaw (word_cat (buf ! (2 * i + 1)) (buf ! (2 * i)))))
      \<and> length (data f) = 160 \<and> datalen f = 160 \<and> samples f = 160 \<and> rate f = 8000"
  proof (intro allI impI)
    fix f
    assume emitted: "tick_written env buf s = Some (Real_audio f)"
    let ?s1 = "fst (warmup_step env (length buf) s)"
    have whole: "frame_size s \<le> length buf" and act: "playback_active ?s1 \<noteq> 0"
      using no_audio_below_frame_aux [of env buf s f] emitted by simp_all
    have act': "playback_active s \<noteq> 0 \<or> eff_warmup_threshold s \<le> length buf"
      using act by (simp add: active_after_warmup)
    note t = tick_audio [OF act' whole, of env]
    have codec: "write_codec env"
      using emitted t(2) by (auto split: if_splits)
    have f: "f = mk_frame (if playback_is_pcmu s \<noteq> 0 then take 160 buf
              else map linear_to_ulaw (take 160 (l16_samples (take 320 buf))))"
      using emitted t(2) codec by simp
    have companded: "playback_is_pcmu s \<noteq> 0 \<Longrightarrow>
        frame_size s = 160 \<and> tick_buffer env buf s = drop 160 buf \<and>
        length (tick_buffer env buf s) + 160 = length buf \<and> data f = take 160 buf \<and>
        (\<forall>i<160. data f ! i = buf ! i)"
    proof -
      assume p: "playback_is_pcmu s \<noteq> 0"
      then have fs: "frame_size s = 160"
        by (simp add: frame_size_def pcmu_frame_size_def)
      with p whole t(1) f show ?thesis
        by (simp add: mk_frame_def)
    qed
    have linear: "playback_is_pcmu s = 0 \<Longrightarrow>
        frame_size s = 320 \<and> tick_buffer env buf s = drop 320 buf \<and>
        length (tick_buffer env buf s) + 320 = length buf \<and>
        length (l16_samples (take 320 buf)) = 160 \<and>
        data f = map linear_to_ulaw (l16_samples (take 320 buf)) \<and>
        (\<forall>i<160. data f ! i =
           linear_to_ulaw (word_cat (buf ! (2 * i + 1)) (buf ! (2 * i))))"
    proof -
      assume p: "playback_is_pcmu s = 0"
      then have fs: "frame_size s = 320"
        by (simp add: frame_size_def l16_frame_size_def)
      have n: "length (l16_samples (take 320 buf)) = 160"
        using whole fs by (simp add: length_l16_samples)
      then have "take 160 (l16_samples (take 320 buf)) = l16_samples (take 320 buf)"
        by simp
      with p f have d: "data f = map linear_to_ulaw (l16_samples (take 320 buf))"
        by (simp add: mk_frame_def)
      have bytes: "\<forall>i<160. data f ! i =
           linear_to_ulaw (word_cat (buf ! (2 * i + 1)) (buf ! (2 * i)))"
        using whole fs by (simp add: d encoded_frame_nth)
      from whole t(1) fs n d bytes show ?thesis
        by simp
    qed
    show "(playback_is_pcmu s \<noteq> 0 \<longrightarrow>
             frame_size s = 160 \<and> tick_buffer env buf s = drop 160 buf \<and>
             length (tick_buffer env buf s) + 160 = length buf \<and> data f = take 160 buf \<and>
             (\<forall>i<160. data f ! i = buf ! i))
        \<and> (playback_is_pcmu s = 0 \<longrightarrow>
             frame_size s = 320 \<and> tick_buffer env buf s = drop 320 buf \<and>
             length (tick_buffer env buf s) + 320 = length buf \<and>
             length (l16_samples (take 320 buf)) = 160 \<and>
             data f = map linear_to_ulaw (l16_samples (take 320 buf)) \<and>
             (\<forall>i<160. data f ! i =
                linear_to_ulaw (word_cat (buf ! (2 * i + 1)) (buf ! (2 * i)))))
        \<and> length (data f) = 160 \<and> datalen f = 160 \<and> samples f = 160 \<and> rate f = 8000"
    proof -
      have shape: "datalen f = 160 \<and> samples f = 160 \<and> rate f = 8000"
        by (simp add: f mk_frame_def)
      have len: "length (data f) = 160"
      proof (cases "playback_is_pcmu s = 0")
        case True
        from linear [OF True] show ?thesis
          by simp
      next
        case False
        from companded [OF False] whole show ?thesis
          by simp
      qed
      from companded linear shape len show ?thesis
        by blast
    qed
  qed
  from flag size audio show ?thesis
    by (intro conjI)
qed

text \<open>
  A linear buffer holding the samples 1000 and -1000, 158 zero samples and one sample
  more: the frame is their encodings in order and the last two bytes stay buffered. A
  companded buffer of 161 bytes: the frame is its first 160 bytes and the last stays.
\<close>

theorem frame_consumption_witness:
  "tick_written host_with_codec ([0xE8, 0x03, 0x18, 0xFC] @ replicate 316 0 @ [0x2A, 0x00])
       active_session =
     Some (Real_audio (mk_frame ([0xCE, 0x4E] @ replicate 158 0xFF)))
   \<and> playback_is_pcmu active_session = 0
   \<and> tick_buffer host_with_codec ([0xE8, 0x03, 0x18, 0xFC] @ replicate 316 0 @ [0x2A, 0x00])
        active_session = [0x2A, 0x00]
   \<and> data (mk_frame ([0xCE, 0x4E] @ replicate 158 0xFF)) ! 1 =
        linear_to_ulaw (word_cat (0xFC :: 8 word) (0x18 :: 8 word))
   \<and> tick_written host_with_codec ([1, 2, 3] @ replicate 157 7 @ [9])
        (active_session\<lparr>playback_is_pcmu := 1\<rparr>) =
     Some (Real_audio (mk_frame ([1, 2, 3] @ replicate 157 7)))
   \<and> playback_is_pcmu (active_session\<lparr>playback_is_pcmu := 1\<rparr>) \<noteq> 0
   \<and> tick_buffer host_with_codec ([1, 2, 3] @ replicate 157 7 @ [9])
        (active_session\<lparr>playback_is_pcmu := 1\<rparr>) = [9]
   \<and> data (mk_frame ([1, 2, 3] @ replicate 157 7)) ! 2 = 3"
proof -
  let ?lin = "[0xE8, 0x03, 0x18, 0xFC] @ replicate 316 0 @ [0x2A, 0x00 :: 8 word]"
  let ?law = "[1, 2, 3] @ replicate 157 7 @ [9 :: 8 word]"
  let ?pcmu = "active_session\<lparr>playback_is_pcmu := 1\<rparr>"
  have z: "l16_samples (replicate 316 0 :: 8 word list) = replicate 158 0"
    using l16_samples_replicate [of 158 "0 :: 8 word"] by (simp add: word_cat_eq)
  have s: "l16_samples (take 320 ?lin) = [1000, - 1000] @ replicate 158 0"
    by (simp add: z word_cat_eq)
  have a: "playback_active active_session \<noteq> 0 \<or>
      eff_warmup_threshold active_session \<le> length ?lin"
    and fl: "frame_size active_session \<le> length ?lin"
    and lin: "playback_is_pcmu active_session = 0"
    by (simp_all add: active_session_def warming_session_def frame_size_def l16_frame_size_def)
  have e: "tick_written host_with_codec ?lin active_session =
      Some (Real_audio (mk_frame ([0xCE, 0x4E] @ replicate 158 0xFF)))"
    using tick_audio(2) [OF a fl, of host_with_codec] s lin
    by (simp add: host_with_codec_def linear_to_ulaw_thousand linear_to_ulaw_zero)
  have b: "playback_active ?pcmu \<noteq> 0 \<or> eff_warmup_threshold ?pcmu \<le> length ?law"
    and fp: "frame_size ?pcmu \<le> length ?law"
    and law: "playback_is_pcmu ?pcmu \<noteq> 0"
    by (simp_all add: active_session_def warming_session_def frame_size_def pcmu_frame_size_def)
  have p: "tick_written host_with_codec ?law ?pcmu =
      Some (Real_audio (mk_frame ([1, 2, 3] @ replicate 157 7)))"
    using tick_audio(2) [OF b fp, of host_with_codec] law
    by (simp add: host_with_codec_def)
  show ?thesis
    using frame_consumption [of host_with_codec ?lin active_session]
      frame_consumption [of host_with_codec ?law ?pcmu] e p lin law
    by (simp add: mk_frame_def)
qed

text \<open>
  C6, as amended. In a linear session in warmup whose warmup threshold is 40 frames
  (12800 bytes), a tick that finds fewer than 40 frames buffered writes nothing, reads
  nothing and leaves the engine in warmup; a tick that finds 40 frames or more
  activates the engine and takes the first frame off the buffer, and writes its 160
  encoded samples when the session has a write codec.
\<close>

theorem warmup_at_forty_frames:
  assumes linear: "playback_is_pcmu s = 0"
    and idle: "playback_active s = 0"
    and forty: "eff_warmup_threshold s = 40 * frame_size s"
  shows "(length buf < 40 * 320 \<longrightarrow>
            tick_written env buf s = None \<and> tick_buffer env buf s = buf \<and>
            playback_active (tick_state env buf s) = 0)
       \<and> (40 * 320 \<le> length buf \<longrightarrow>
            playback_active (tick_state env buf s) \<noteq> 0 \<and>
            tick_buffer env buf s = drop 320 buf \<and>
            tick_written env buf s =
              (if write_codec env then
                 Some (Real_audio (mk_frame (map linear_to_ulaw (l16_samples (take 320 buf)))))
               else None))"
proof -
  have fs: "frame_size s = 320"
    using linear by (simp add: frame_size_def l16_frame_size_def)
  have before: "length buf < 40 * 320 \<longrightarrow>
            tick_written env buf s = None \<and> tick_buffer env buf s = buf \<and>
            playback_active (tick_state env buf s) = 0"
    using idle forty fs by (simp add: tick_still_warming)
  have reached: "40 * 320 \<le> length buf \<longrightarrow>
            playback_active (tick_state env buf s) \<noteq> 0 \<and>
            tick_buffer env buf s = drop 320 buf \<and>
            tick_written env buf s =
              (if write_codec env then
                 Some (Real_audio (mk_frame (map linear_to_ulaw (l16_samples (take 320 buf)))))
               else None)"
  proof
    assume full: "40 * 320 \<le> length buf"
    then have w: "playback_active s \<noteq> 0 \<or> eff_warmup_threshold s \<le> length buf"
      and f: "frame_size s \<le> length buf"
      using forty fs by simp_all
    have "length (l16_samples (take 320 buf)) = 160"
      using full by (simp add: length_l16_samples)
    then have "take 160 (l16_samples (take 320 buf)) = l16_samples (take 320 buf)"
      by simp
    then show "playback_active (tick_state env buf s) \<noteq> 0 \<and>
            tick_buffer env buf s = drop 320 buf \<and>
            tick_written env buf s =
              (if write_codec env then
                 Some (Real_audio (mk_frame (map linear_to_ulaw (l16_samples (take 320 buf)))))
               else None)"
      using tick_audio [OF w f, of env] linear fs by simp
  qed
  from before reached show ?thesis ..
qed

theorem warmup_at_forty_frames_witness:
  "playback_is_pcmu warming_session = 0 \<and> playback_active warming_session = 0
   \<and> eff_warmup_threshold warming_session = 40 * frame_size warming_session
   \<and> length (replicate 12799 0 :: 8 word list) < 40 * 320
   \<and> tick_written host_with_codec (replicate 12799 0) warming_session = None
   \<and> tick_buffer host_with_codec (replicate 12799 0) warming_session = replicate 12799 0
   \<and> playback_active (tick_state host_with_codec (replicate 12799 0) warming_session) = 0"
  using warmup_at_forty_frames [of warming_session "replicate 12799 0" host_with_codec]
  by (simp add: warming_session_def eff_warmup_threshold_def frame_size_def l16_frame_size_def)

text \<open>
  C6 as stated fails at exactly 40 frames: a linear session in warmup with the default
  threshold and 12800 bytes of silence buffered activates on the tick and writes the
  first frame.
\<close>

theorem warmup_forty_frames_emits:
  "playback_active warming_session = 0
   \<and> eff_warmup_threshold warming_session = 40 * 320
   \<and> length (replicate 12800 0 :: 8 word list) = 40 * 320
   \<and> playback_active (tick_state host_with_codec (replicate 12800 0) warming_session) = 1
   \<and> tick_written host_with_codec (replicate 12800 0) warming_session =
        Some (Real_audio (mk_frame (replicate 160 0xFF)))"
proof -
  have th: "eff_warmup_threshold warming_session = 12800"
    and fs: "frame_size warming_session = 320"
    and idle: "playback_active warming_session = 0"
    and linear: "playback_is_pcmu warming_session = 0"
    by (simp_all add: warming_session_def eff_warmup_threshold_def frame_size_def
        l16_frame_size_def)
  have s: "l16_samples (take 320 (replicate 12800 0 :: 8 word list)) = replicate 160 0"
    using l16_samples_replicate [of 160 "0 :: 8 word"] by (simp add: word_cat_eq)
  have w: "playback_active warming_session \<noteq> 0 \<or>
      eff_warmup_threshold warming_session \<le> length (replicate 12800 0 :: 8 word list)"
    and f: "frame_size warming_session \<le> length (replicate 12800 0 :: 8 word list)"
    by (simp_all add: th fs)
  note t = tick_audio [OF w f, of host_with_codec]
  have a: "playback_active (tick_state host_with_codec (replicate 12800 0) warming_session) = 1"
    using t(3) by (simp add: one_bit_nonzero)
  have e: "tick_written host_with_codec (replicate 12800 0) warming_session =
        Some (Real_audio (mk_frame (replicate 160 0xFF)))"
    using t(2) s linear linear_to_ulaw_zero by (simp add: host_with_codec_def)
  from idle th a e show ?thesis
    by simp
qed

text \<open>
  C8. With no override (the field is 0) the warmup threshold a tick uses is 40 frame
  sizes and the low water mark is 20 frame sizes, the frame size being 160 bytes for a
  companded buffer and 320 for a linear one. These are the values the tick acts on: an
  engine in warmup activates exactly at 40 frame sizes, and an active engine past its
  grace count with less than a frame buffered (which is below 20 frame sizes) pauses.
\<close>

theorem default_thresholds:
  "(warmup_threshold s = 0 \<longrightarrow> eff_warmup_threshold s = 40 * frame_size s)
   \<and> (low_water_mark s = 0 \<longrightarrow> eff_low_water_mark s = 20 * frame_size s)
   \<and> frame_size s = (if playback_is_pcmu s \<noteq> 0 then 160 else 320)
   \<and> (warmup_threshold s = 0 \<and> playback_active s = 0 \<longrightarrow>
         (playback_active (fst (warmup_step env (length buf) s)) \<noteq> 0)
           = (40 * frame_size s \<le> length buf))
   \<and> (low_water_mark s = 0 \<and> playback_active s \<noteq> 0 \<and> length buf < frame_size s \<and>
        underrun_grace_frames s < underrun_streak s + 1 \<longrightarrow>
         playback_active (tick_state env buf s) = 0)"
proof -
  have wt: "warmup_threshold s = 0 \<longrightarrow> eff_warmup_threshold s = 40 * frame_size s"
    by (simp add: eff_warmup_threshold_def)
  have lw: "low_water_mark s = 0 \<longrightarrow> eff_low_water_mark s = 20 * frame_size s"
    by (simp add: eff_low_water_mark_def)
  have fs: "frame_size s = (if playback_is_pcmu s \<noteq> 0 then 160 else 320)"
    by (simp add: frame_size_def pcmu_frame_size_def l16_frame_size_def)
  have act: "warmup_threshold s = 0 \<and> playback_active s = 0 \<longrightarrow>
         (playback_active (fst (warmup_step env (length buf) s)) \<noteq> 0)
           = (40 * frame_size s \<le> length buf)"
    using wt by (simp add: active_after_warmup)
  have pause: "low_water_mark s = 0 \<and> playback_active s \<noteq> 0 \<and> length buf < frame_size s \<and>
        underrun_grace_frames s < underrun_streak s + 1 \<longrightarrow>
         playback_active (tick_state env buf s) = 0"
  proof
    assume h: "low_water_mark s = 0 \<and> playback_active s \<noteq> 0 \<and> length buf < frame_size s \<and>
        underrun_grace_frames s < underrun_streak s + 1"
    then have "length buf < eff_low_water_mark s"
      using lw by simp
    moreover have "\<not> underrun_streak s + 1 \<le> underrun_grace_frames s"
      using h by (simp add: not_le)
    ultimately show "playback_active (tick_state env buf s) = 0"
      using h by (simp add: tick_projections warmup_step_active frame_step_pause)
  qed
  from wt lw fs act pause show ?thesis
    by blast
qed

theorem default_thresholds_witness:
  "warmup_threshold warming_session = 0 \<and> low_water_mark warming_session = 0
   \<and> eff_warmup_threshold warming_session = 12800
   \<and> eff_low_water_mark warming_session = 6400
   \<and> eff_warmup_threshold (warming_session\<lparr>playback_is_pcmu := 1\<rparr>) = 6400
   \<and> eff_low_water_mark (warming_session\<lparr>playback_is_pcmu := 1\<rparr>) = 3200"
  using default_thresholds [of warming_session host_with_codec "[]"]
    default_thresholds [of "warming_session\<lparr>playback_is_pcmu := 1\<rparr>" host_with_codec "[]"]
  by (simp add: warming_session_def)

text \<open>
  C10. The threshold a tick uses is never zero. A session whose \<open>warmup_threshold\<close>
  (or \<open>low_water_mark\<close>) field is 0 gets 40 (or 20) frame sizes, and every tick of it
  is the tick of the session that has that default written in the field: the same
  bytes read, the same frame written, the same lines logged and the same state, the
  field apart.
\<close>

theorem zero_threshold_is_default:
  "0 < eff_warmup_threshold s \<and> 0 < eff_low_water_mark s
   \<and> eff_warmup_threshold (s\<lparr>warmup_threshold := 0\<rparr>) = 40 * frame_size s
   \<and> eff_low_water_mark (s\<lparr>low_water_mark := 0\<rparr>) = 20 * frame_size s
   \<and> (warmup_threshold s = 0 \<longrightarrow>
        playback_tick env buf (s\<lparr>warmup_threshold := 40 * frame_size s\<rparr>) =
          (tick_buffer env buf s,
           (tick_state env buf s)\<lparr>warmup_threshold := 40 * frame_size s\<rparr>,
           \<lparr>written = tick_written env buf s, logged = tick_logged env buf s\<rparr>))
   \<and> (low_water_mark s = 0 \<longrightarrow>
        playback_tick env buf (s\<lparr>low_water_mark := 20 * frame_size s\<rparr>) =
          (tick_buffer env buf s,
           (tick_state env buf s)\<lparr>low_water_mark := 20 * frame_size s\<rparr>,
           \<lparr>written = tick_written env buf s, logged = tick_logged env buf s\<rparr>))"
proof -
  have fs: "0 < frame_size s"
    using frame_size_pos [of s] by auto
  have pos: "0 < eff_warmup_threshold s \<and> 0 < eff_low_water_mark s"
    using fs by (simp add: eff_warmup_threshold_def eff_low_water_mark_def)
  have d: "eff_warmup_threshold (s\<lparr>warmup_threshold := 0\<rparr>) = 40 * frame_size s
      \<and> eff_low_water_mark (s\<lparr>low_water_mark := 0\<rparr>) = 20 * frame_size s"
    by (simp add: eff_warmup_threshold_def eff_low_water_mark_def frame_size_def)
  have w: "warmup_threshold s = 0 \<longrightarrow>
        playback_tick env buf (s\<lparr>warmup_threshold := 40 * frame_size s\<rparr>) =
          (tick_buffer env buf s,
           (tick_state env buf s)\<lparr>warmup_threshold := 40 * frame_size s\<rparr>,
           \<lparr>written = tick_written env buf s, logged = tick_logged env buf s\<rparr>)"
  proof
    assume "warmup_threshold s = 0"
    then have "eff_warmup_threshold (s\<lparr>warmup_threshold := 40 * frame_size s\<rparr>) =
        eff_warmup_threshold s"
      using fs by (simp add: eff_warmup_threshold_def frame_size_def)
    then show "playback_tick env buf (s\<lparr>warmup_threshold := 40 * frame_size s\<rparr>) =
          (tick_buffer env buf s,
           (tick_state env buf s)\<lparr>warmup_threshold := 40 * frame_size s\<rparr>,
           \<lparr>written = tick_written env buf s, logged = tick_logged env buf s\<rparr>)"
      by (rule playback_tick_set_warmup_threshold)
  qed
  have l: "low_water_mark s = 0 \<longrightarrow>
        playback_tick env buf (s\<lparr>low_water_mark := 20 * frame_size s\<rparr>) =
          (tick_buffer env buf s,
           (tick_state env buf s)\<lparr>low_water_mark := 20 * frame_size s\<rparr>,
           \<lparr>written = tick_written env buf s, logged = tick_logged env buf s\<rparr>)"
  proof
    assume "low_water_mark s = 0"
    then have "eff_low_water_mark (s\<lparr>low_water_mark := 20 * frame_size s\<rparr>) =
        eff_low_water_mark s"
      using fs by (simp add: eff_low_water_mark_def frame_size_def)
    then show "playback_tick env buf (s\<lparr>low_water_mark := 20 * frame_size s\<rparr>) =
          (tick_buffer env buf s,
           (tick_state env buf s)\<lparr>low_water_mark := 20 * frame_size s\<rparr>,
           \<lparr>written = tick_written env buf s, logged = tick_logged env buf s\<rparr>)"
      by (rule playback_tick_set_low_water_mark)
  qed
  from pos d w l show ?thesis
    by blast
qed

theorem zero_threshold_is_default_witness:
  "warmup_threshold warming_session = 0
   \<and> eff_warmup_threshold warming_session = 12800
   \<and> playback_tick host_with_codec [] (warming_session\<lparr>warmup_threshold := 12800\<rparr>) =
       (tick_buffer host_with_codec [] warming_session,
        (tick_state host_with_codec [] warming_session)\<lparr>warmup_threshold := 12800\<rparr>,
        \<lparr>written = tick_written host_with_codec [] warming_session,
         logged = tick_logged host_with_codec [] warming_session\<rparr>)"
  using zero_threshold_is_default [of warming_session host_with_codec "[]"]
  by (simp add: warming_session_def eff_warmup_threshold_def frame_size_def l16_frame_size_def)

section \<open>Properties of the start command\<close>

text \<open>
  C9. A start command whose sample rate is not a multiple of 8000, or whose format is
  PCMU or PCMA with a rate other than 8000, returns without a fault and without calling
  \<open>start_capture\<close>, \<open>stream_session_init\<close> or anything else of the host or the glue. It
  logs exactly one error line and never replies \<open>+OK Success\<close>: the reply is
  \<open>-ERR Operation Failed\<close>, except that the command is dropped with the error line
  alone (no reply) when the session is found and the metadata is not valid UTF-8 or the
  mix type is unknown, which are checked before the rate.
\<close>

theorem start_rejects_bad_rate:
  assumes start: "strcasecmp_eq (argv ! 1) ''start''"
    and bad: "\<not> 8000 dvd parse_sampling env argv \<or>
      (fst (parse_format_metadata argv) \<in> {AUDIO_FORMAT_PCMU, AUDIO_FORMAT_PCMA} \<and>
       parse_sampling env argv \<noteq> 8000)"
  shows "\<exists>r. stream_function env argv = Inr r
      \<and> (\<forall>c. Call c \<notin> set (events r))
      \<and> (\<exists>l. events r = [Error_log l])
      \<and> reply r \<noteq> Some Reply_ok
      \<and> reply r =
          (if switch_core_session_locate env (argv ! 0) \<and>
              ((\<exists>m. snd (parse_format_metadata argv) = Some m \<and> \<not> is_valid_utf8 env m) \<or>
               parse_mix (argv ! 3) = None)
           then None else Some Reply_err)"
proof -
  have rate: "parse_sampling env argv \<noteq> 8000"
    using bad by auto
  then have len: "4 < length argv"
    by (rule parse_sampling_given)
  have bad': "parse_sampling env argv smod 8000 \<noteq> 0 \<or>
      (fst (parse_format_metadata argv) \<noteq> AUDIO_FORMAT_L16 \<and> parse_sampling env argv \<noteq> 8000)"
    using bad
    by (auto simp: smod_8000 AUDIO_FORMAT_L16_def AUDIO_FORMAT_PCMU_def AUDIO_FORMAT_PCMA_def)
  note other = start_is_no_other_command [OF start]
  have sf: "stream_function env argv =
      (if \<not> switch_core_session_locate env (argv ! 0) then
         finish SWITCH_STATUS_FALSE [Error_log (Log_error_locating_session (argv ! 0))]
       else start_command env argv)"
    using len start other by (simp add: stream_function_def Let_def)
  show ?thesis
  proof (cases "switch_core_session_locate env (argv ! 0)")
    case False
    then show ?thesis
      by (simp add: sf finish_def)
  next
    case True
    then have "stream_function env argv = start_command env argv"
      by (simp add: sf)
    then show ?thesis
      using True
      by (auto simp: start_command_refused [OF len bad'] finish_def goto_done_def
          split: option.splits)
  qed
qed

theorem start_rejects_bad_rate_witness:
  "strcasecmp_eq ([''uuid'', ''start'', ''ws://host'', ''mono'', ''11025''] ! 1) ''start''
   \<and> \<not> 8000 dvd parse_sampling willing_host [''uuid'', ''start'', ''ws://host'', ''mono'', ''11025'']
   \<and> stream_function willing_host [''uuid'', ''start'', ''ws://host'', ''mono'', ''11025''] =
        Inr \<lparr>reply = Some Reply_err, events = [Error_log Log_invalid_sample_rate]\<rparr>"
proof -
  let ?argv = "[''uuid'', ''start'', ''ws://host'', ''mono'', ''11025'']"
  have s: "strcasecmp_eq (?argv ! 1) ''start''"
    by (simp add: strcasecmp_eq_def)
  have r: "parse_sampling willing_host ?argv = 11025"
    by (simp add: parse_sampling_def willing_host_def)
  then have b: "\<not> 8000 dvd parse_sampling willing_host ?argv"
    by simp
  have v: "stream_function willing_host ?argv =
        Inr \<lparr>reply = Some Reply_err, events = [Error_log Log_invalid_sample_rate]\<rparr>"
    using r
    by (simp add: stream_function_def start_command_def willing_host_def strcasecmp_eq_def
        tolower_c_def parse_format_metadata_def parse_mix_def finish_def smod_int_alt_def)
  from start_rejects_bad_rate [of ?argv willing_host, OF s] b v s show ?thesis
    by simp
qed

end
